theory Spec2Isabelle
  imports Main "HOL-Library.AList"
begin

section \<open>Attribute exchange messages of \<open>openid/ax.py\<close>\<close>

text \<open>
  The module is Python 2 code (\<open>dict.iteritems\<close>, \<open>itervalues\<close>). Exceptions are
  values of \<open>py_error\<close>; a method that mutates \<open>self\<close> returns the updated object.
  A dictionary is an association list in iteration order with \<open>map_of\<close> as lookup.
  A string is a \<open>unicode\<close> object, as the docstrings declare the arguments, over the
  code points below 256: a \<open>char\<close> is one code point.
  A response holds its request by reference in the source; here it holds the request's
  value, which is the same as long as the request is not mutated afterwards.
\<close>

datatype py_error = AXError | KeyError | ValueError | AttributeError | TypeError

type_synonym 'v dict = "(string \<times> 'v) list"

definition dict_get :: "'v dict \<Rightarrow> string \<Rightarrow> 'v option" where
  "dict_get d k = map_of d k"

definition dict_set :: "'v dict \<Rightarrow> string \<Rightarrow> 'v \<Rightarrow> 'v dict" where
  "dict_set d k v = AList.update k v d"

subsection \<open>AttrInfo, FetchRequest, FetchResponse\<close>

record AttrInfo =
  required :: bool
  count :: "int option"
  type_uri :: string
  attr_alias :: "string option"

definition AttrInfo_init :: "string \<Rightarrow> int option \<Rightarrow> bool \<Rightarrow> string option \<Rightarrow> AttrInfo" where
  "AttrInfo_init t c r a = \<lparr>required = r, count = c, type_uri = t, attr_alias = a\<rparr>"

record FetchRequest =
  requested_attributes :: "AttrInfo dict"
  request_update_url :: "string option"

definition FetchRequest_init :: "string option \<Rightarrow> FetchRequest" where
  "FetchRequest_init u = \<lparr>requested_attributes = [], request_update_url = u\<rparr>"

text \<open>\<open>FetchRequest.add\<close>: a type URI is requested once.\<close>

definition add :: "FetchRequest \<Rightarrow> AttrInfo \<Rightarrow> py_error + FetchRequest" where
  "add self attribute =
     (if dict_get (requested_attributes self) (type_uri attribute) \<noteq> None then Inl KeyError
      else Inr (self\<lparr>requested_attributes :=
                  dict_set (requested_attributes self) (type_uri attribute) attribute\<rparr>))"

record FetchResponse =
  request :: "FetchRequest option"
  data :: "(string list) dict"
  update_url :: "string option"

text \<open>
  \<open>FetchResponse.__init__\<close>. Without a request the object is empty. With one, the
  source runs \<open>for type_uri in self.request\<close>, but FetchRequest defines \<open>iter\<close> and
  \<open>__contains__\<close> only, AXMessage defines no iteration either, and their base class
  \<open>extension.Extension\<close> is not part of the module. What iterating a request gives is
  therefore the parameter \<open>request_iter\<close>: a TypeError when the base class has no
  \<open>__iter__\<close>, the sequence it yields otherwise. Each type URI of the sequence gets an
  empty value list, and the request's update URL is copied.
\<close>

definition FetchResponse_init ::
  "(FetchRequest \<Rightarrow> py_error + string list) \<Rightarrow> FetchRequest option
     \<Rightarrow> py_error + FetchResponse" where
  "FetchResponse_init request_iter req =
     (case req of
        None \<Rightarrow> Inr \<lparr>request = None, data = [], update_url = None\<rparr>
      | Some r \<Rightarrow>
          (case request_iter r of
             Inl e \<Rightarrow> Inl e
           | Inr type_uris \<Rightarrow>
               Inr \<lparr>request = Some r,
                     data = foldl (\<lambda>d t. dict_set d t []) [] type_uris,
                     update_url = request_update_url r\<rparr>))"

text \<open>
  Python 2 comparisons of a length with \<open>AttrInfo.count\<close>: \<open>None\<close> equals no integer
  and orders below every integer, so \<open>n == None\<close> is false and \<open>n > None\<close> is true.
\<close>

definition py2_eq :: "nat \<Rightarrow> int option \<Rightarrow> bool" where
  "py2_eq n c = (case c of None \<Rightarrow> False | Some k \<Rightarrow> int n = k)"

definition py2_gt :: "nat \<Rightarrow> int option \<Rightarrow> bool" where
  "py2_gt n c = (case c of None \<Rightarrow> True | Some k \<Rightarrow> int n > k)"

text \<open>
  \<open>FetchResponse.addValue\<close>: the descriptor is looked up through \<open>self.request\<close> first
  (AttributeError on \<open>None\<close>, KeyError on an unknown type URI), then \<open>self.data\<close>.
\<close>

definition addValue :: "FetchResponse \<Rightarrow> string \<Rightarrow> string \<Rightarrow> py_error + FetchResponse" where
  "addValue self t v =
     (case request self of
        None \<Rightarrow> Inl AttributeError
      | Some req \<Rightarrow>
          (case dict_get (requested_attributes req) t of
             None \<Rightarrow> Inl KeyError
           | Some attr \<Rightarrow>
               (case dict_get (data self) t of
                  None \<Rightarrow> Inl KeyError
                | Some vs \<Rightarrow>
                    if py2_eq (length vs) (count attr) then Inl ValueError
                    else Inr (self\<lparr>data := dict_set (data self) t (vs @ [v])\<rparr>))))"

definition setValues :: "FetchResponse \<Rightarrow> string \<Rightarrow> string list \<Rightarrow> py_error + FetchResponse" where
  "setValues self t values =
     (case request self of
        None \<Rightarrow> Inl AttributeError
      | Some req \<Rightarrow>
          (case dict_get (requested_attributes req) t of
             None \<Rightarrow> Inl KeyError
           | Some attr \<Rightarrow>
               if py2_gt (length values) (count attr) then Inl ValueError
               else if dict_get (data self) t = None then Inl KeyError
               else Inr (self\<lparr>data := dict_set (data self) t values\<rparr>)))"

text \<open>
  The accessors. \<open>getSingle\<close>'s default is any Python value, \<open>None\<close> unless given: an
  optional string here.
\<close>

definition get :: "FetchResponse \<Rightarrow> string \<Rightarrow> py_error + string list" where
  "get self t = (case dict_get (data self) t of None \<Rightarrow> Inl KeyError | Some vs \<Rightarrow> Inr vs)"

definition getSingle :: "FetchResponse \<Rightarrow> string \<Rightarrow> string option \<Rightarrow> py_error + string option" where
  "getSingle self t dflt =
     (case dict_get (data self) t of
        None \<Rightarrow> Inl KeyError
      | Some values \<Rightarrow>
          if values = [] then Inr dflt
          else if length values = 1 then Inr (Some (values ! 0))
          else Inl ValueError)"

definition FetchResponse_count :: "FetchResponse \<Rightarrow> string \<Rightarrow> py_error + nat" where
  "FetchResponse_count self t = (case get self t of Inl e \<Rightarrow> Inl e | Inr vs \<Rightarrow> Inr (length vs))"

subsection \<open>Strings and integers\<close>

definition startswith :: "string \<Rightarrow> string \<Rightarrow> bool" where
  "startswith s p = (take (length p) s = p)"

text \<open>\<open>s.split(',')\<close> and \<open>','.join(xs)\<close>.\<close>

fun split_comma :: "string \<Rightarrow> string list" where
  "split_comma [] = [[]]"
| "split_comma (c # cs) =
     (if c = CHR '','' then [] # split_comma cs
      else (case split_comma cs of [] \<Rightarrow> [[c]] | w # ws \<Rightarrow> (c # w) # ws))"

fun join_comma :: "string list \<Rightarrow> string" where
  "join_comma [] = []"
| "join_comma [x] = x"
| "join_comma (x # y # ys) = x @ CHR '','' # join_comma (y # ys)"

text \<open>\<open>str(n)\<close> and \<open>'%d' % n\<close> of an integer: decimal digits, a minus sign first.\<close>

definition digit_char :: "nat \<Rightarrow> char" where
  "digit_char d = char_of (48 + d)"

function str_nat :: "nat \<Rightarrow> string" where
  "str_nat n = (if n < 10 then [digit_char n] else str_nat (n div 10) @ [digit_char (n mod 10)])"
  by pat_completeness auto
termination
  by (relation "measure id") auto

declare str_nat.simps [simp del]

definition py_str :: "int \<Rightarrow> string" where
  "py_str i = (if i < 0 then CHR ''-'' # str_nat (nat (- i)) else str_nat (nat i))"

text \<open>
  \<open>int(s)\<close> of a unicode string: surrounding white space is dropped, then an optional
  sign and at least one decimal digit; \<open>None\<close> stands for the ValueError of anything
  else. The white space of unicode below code point 256 is U+0009 to U+000D, U+001C to
  U+001F, the space, U+0085 and U+00A0; its only decimal digits there are 0 to 9.
\<close>

definition is_space :: "char \<Rightarrow> bool" where
  "is_space c =
     (c \<in> set [CHR 0x09, CHR 0x0A, CHR 0x0B, CHR 0x0C, CHR 0x0D,
                CHR 0x1C, CHR 0x1D, CHR 0x1E, CHR 0x1F, CHR 0x20, CHR 0x85, CHR 0xA0])"

definition strip :: "string \<Rightarrow> string" where
  "strip s = rev (dropWhile is_space (rev (dropWhile is_space s)))"

definition is_digit :: "char \<Rightarrow> bool" where
  "is_digit c = (48 \<le> (of_char c :: nat) \<and> (of_char c :: nat) \<le> 57)"

fun digits_value :: "nat \<Rightarrow> string \<Rightarrow> nat" where
  "digits_value acc [] = acc"
| "digits_value acc (c # cs) = digits_value (10 * acc + (of_char c - 48)) cs"

definition parse_digits :: "string \<Rightarrow> nat option" where
  "parse_digits s = (if s \<noteq> [] \<and> list_all is_digit s then Some (digits_value 0 s) else None)"

definition py_int :: "string \<Rightarrow> int option" where
  "py_int s =
     (case strip s of
        [] \<Rightarrow> None
      | c # cs \<Rightarrow>
          if c = CHR ''-'' then map_option (\<lambda>n. - int n) (parse_digits cs)
          else if c = CHR ''+'' then map_option int (parse_digits cs)
          else map_option int (parse_digits (c # cs)))"

subsection \<open>NamespaceMap\<close>

text \<open>
  Modelled from the spec: \<open>openid.message.NamespaceMap\<close>, which \<open>ax.py\<close> imports and
  whose source is not part of the module. The spec describes it as a bidirectional,
  injective mapping between type URIs and aliases with \<open>addAlias(uri, alias)\<close> (fails
  on a conflicting rebinding), \<open>add(uri)\<close> (the URI's alias, or the next unused alias
  allocated for it), \<open>getNamespaceURI(alias)\<close> and iteration over (uri, alias) pairs.
  It is the list of its pairs in registration order. A rebinding conflicts when the
  alias belongs to another URI or the URI has another alias. Allocated aliases are
  \<open>ext0\<close>, \<open>ext1\<close>, ...: among the first \<open>n + 1\<close> of them one is unused by a registry
  of \<open>n\<close> pairs.
\<close>

type_synonym NamespaceMap = "(string \<times> string) list"

definition getNamespaceURI :: "NamespaceMap \<Rightarrow> string \<Rightarrow> string option" where
  "getNamespaceURI nm a = map_of (map (\<lambda>(u, a'). (a', u)) nm) a"

definition getAlias :: "NamespaceMap \<Rightarrow> string \<Rightarrow> string option" where
  "getAlias nm u = map_of nm u"

definition iterNamespaceURIs :: "NamespaceMap \<Rightarrow> string list" where
  "iterNamespaceURIs nm = map fst nm"

definition addAlias :: "NamespaceMap \<Rightarrow> string \<Rightarrow> string \<Rightarrow> py_error + (string \<times> NamespaceMap)" where
  "addAlias nm u desired =
     (case getNamespaceURI nm desired of
        Some u' \<Rightarrow> if u' \<noteq> u then Inl KeyError else Inr (desired, nm)
      | None \<Rightarrow>
          (case getAlias nm u of
             Some a \<Rightarrow> Inl KeyError
           | None \<Rightarrow> Inr (desired, nm @ [(u, desired)])))"

definition NamespaceMap_add :: "NamespaceMap \<Rightarrow> string \<Rightarrow> string \<times> NamespaceMap" where
  "NamespaceMap_add nm u =
     (case getAlias nm u of
        Some a \<Rightarrow> (a, nm)
      | None \<Rightarrow>
          (let a = (case find (\<lambda>i. getNamespaceURI nm (''ext'' @ str_nat i) = None)
                            [0 ..< Suc (length nm)] of
                      Some i \<Rightarrow> ''ext'' @ str_nat i
                    | None \<Rightarrow> ''ext'' @ str_nat (Suc (length nm)))
           in (a, nm @ [(u, a)])))"

subsection \<open>toTypeURIs and parseAXValues\<close>

fun resolve_aliases :: "NamespaceMap \<Rightarrow> string list \<Rightarrow> py_error + string list" where
  "resolve_aliases nm [] = Inr []"
| "resolve_aliases nm (a # as) =
     (case getNamespaceURI nm a of
        None \<Rightarrow> Inl KeyError
      | Some u \<Rightarrow>
          (case resolve_aliases nm as of Inl e \<Rightarrow> Inl e | Inr us \<Rightarrow> Inr (u # us)))"

definition toTypeURIs :: "NamespaceMap \<Rightarrow> string option \<Rightarrow> py_error + string list" where
  "toTypeURIs namespace_map alias_list_s =
     (case alias_list_s of
        None \<Rightarrow> Inr []
      | Some s \<Rightarrow> if s = [] then Inr [] else resolve_aliases namespace_map (split_comma s))"

text \<open>The first loop of \<open>parseAXValues\<close>: every \<open>type.<alias>\<close> key binds its alias.\<close>

fun register_types :: "string dict \<Rightarrow> NamespaceMap \<Rightarrow> py_error + NamespaceMap" where
  "register_types [] aliases = Inr aliases"
| "register_types ((key, v) # rest) aliases =
     (if startswith key ''type.'' then
        (case addAlias aliases v (drop 5 key) of
           Inl e \<Rightarrow> Inl e
         | Inr (_, aliases') \<Rightarrow> register_types rest aliases')
      else register_types rest aliases)"

definition value_key :: "string \<Rightarrow> int \<Rightarrow> string" where
  "value_key a i = ''value.'' @ a @ ''.'' @ py_str i"

text \<open>The inner loop over \<open>range(1, count + 1)\<close>: a missing value is a KeyError.\<close>

fun read_values :: "string dict \<Rightarrow> string \<Rightarrow> int list \<Rightarrow> py_error + string list" where
  "read_values ax_args a [] = Inr []"
| "read_values ax_args a (i # is) =
     (case dict_get ax_args (value_key a i) of
        None \<Rightarrow> Inl KeyError
      | Some v \<Rightarrow>
          (case read_values ax_args a is of Inl e \<Rightarrow> Inl e | Inr vs \<Rightarrow> Inr (v # vs)))"

text \<open>The second loop, over the (type URI, alias) pairs of the registry.\<close>

fun parse_aliases ::
  "string dict \<Rightarrow> NamespaceMap \<Rightarrow> string list \<Rightarrow> (string list) dict
     \<Rightarrow> py_error + (string list \<times> (string list) dict)" where
  "parse_aliases ax_args [] singletons d = Inr (singletons, d)"
| "parse_aliases ax_args ((t, a) # rest) singletons d =
     (case dict_get ax_args (''count.'' @ a) of
        None \<Rightarrow>
          (case dict_get ax_args (''value.'' @ a) of
             None \<Rightarrow> Inl KeyError
           | Some v \<Rightarrow>
               parse_aliases ax_args rest (singletons @ [t])
                 (dict_set d t (if v = [] then [] else [v])))
      | Some count_s \<Rightarrow>
          (case py_int count_s of
             None \<Rightarrow> Inl ValueError
           | Some n \<Rightarrow>
               (case read_values ax_args a [1 .. n] of
                  Inl e \<Rightarrow> Inl e
                | Inr values \<Rightarrow> parse_aliases ax_args rest singletons (dict_set d t values))))"

definition parseAXValues :: "string dict \<Rightarrow> py_error + (string list \<times> (string list) dict)" where
  "parseAXValues ax_args =
     (case register_types ax_args [] of
        Inl e \<Rightarrow> Inl e
      | Inr aliases \<Rightarrow> parse_aliases ax_args aliases [] [])"

subsection \<open>Parsing a response\<close>

text \<open>
  \<open>_checkMode\<close>. The arguments may be \<open>None\<close> (a serializer that returns nothing, or
  \<open>getSignedNS\<close> finding unsigned arguments): \<open>ax_args.get\<close> is then an AttributeError.
\<close>

definition checkMode :: "string \<Rightarrow> string dict option \<Rightarrow> py_error + string dict" where
  "checkMode mode ax_args =
     (case ax_args of
        None \<Rightarrow> Inl AttributeError
      | Some args \<Rightarrow> if dict_get args ''mode'' \<noteq> Some mode then Inl AXError else Inr args)"

definition FetchResponse_parseExtensionArgs ::
  "FetchResponse \<Rightarrow> string dict option \<Rightarrow> py_error + FetchResponse" where
  "FetchResponse_parseExtensionArgs self ax_args =
     (case checkMode ''fetch_response'' ax_args of
        Inl e \<Rightarrow> Inl e
      | Inr args \<Rightarrow>
          (case parseAXValues args of
             Inl e \<Rightarrow> Inl e
           | Inr (_, d) \<Rightarrow> Inr (self\<lparr>data := d, update_url := dict_get args ''update_url''\<rparr>)))"

text \<open>
  A SuccessResponse is what \<open>fromSuccessResponse\<close> reads of it: the result of
  \<open>getSignedNS(ns_uri)\<close> (\<open>None\<close> when an argument is unsigned) and of
  \<open>message.getArgs(ns_uri)\<close>. The response is built by \<open>cls()\<close>, without a request.
  The method has no \<open>return\<close>: its value is \<open>None\<close>.
\<close>

record SuccessResponse =
  getSignedNS :: "string dict option"
  getArgs :: "string dict"

definition fromSuccessResponse ::
  "(FetchRequest \<Rightarrow> py_error + string list) \<Rightarrow> SuccessResponse \<Rightarrow> bool
     \<Rightarrow> py_error + FetchResponse option" where
  "fromSuccessResponse request_iter success_response signed =
     (case FetchResponse_init request_iter None of
        Inl e \<Rightarrow> Inl e
      | Inr self \<Rightarrow>
          (let ax_args = (if signed then getSignedNS success_response
                          else Some (getArgs success_response))
           in case FetchResponse_parseExtensionArgs self ax_args of
                Inl e \<Rightarrow> Inl e
              | Inr self' \<Rightarrow> Inr None))"

subsection \<open>Serializing and parsing a request\<close>

text \<open>
  The loop of \<open>FetchRequest.getExtensionArgs\<close> over \<open>requested_attributes\<close>: the alias
  is allocated or registered, appended to one of the two alias lists, and the
  \<open>count.<alias>\<close> (when set) and \<open>type.<alias>\<close> keys are stored.
\<close>

fun request_args ::
  "AttrInfo dict \<Rightarrow> NamespaceMap \<Rightarrow> string list \<Rightarrow> string list \<Rightarrow> string dict
     \<Rightarrow> py_error + (string list \<times> string list \<times> string dict)" where
  "request_args [] aliases required_l if_available ax_args =
     Inr (required_l, if_available, ax_args)"
| "request_args ((t, attribute) # rest) aliases required_l if_available ax_args =
     (case (case attr_alias attribute of
              None \<Rightarrow> Inr (NamespaceMap_add aliases t)
            | Some a \<Rightarrow> addAlias aliases t a) of
        Inl e \<Rightarrow> Inl e
      | Inr (a, aliases') \<Rightarrow>
          request_args rest aliases'
            (if required attribute then required_l @ [a] else required_l)
            (if required attribute then if_available else if_available @ [a])
            (dict_set
               (case count attribute of
                  None \<Rightarrow> ax_args
                | Some c \<Rightarrow> dict_set ax_args (''count.'' @ a) (py_str c))
               (''type.'' @ a) t))"

text \<open>The arguments start as \<open>_newArgs()\<close>: the mode alone.\<close>

definition FetchRequest_getExtensionArgs :: "FetchRequest \<Rightarrow> py_error + string dict" where
  "FetchRequest_getExtensionArgs self =
     (case request_args (requested_attributes self) [] [] [] [(''mode'', ''fetch_request'')] of
        Inl e \<Rightarrow> Inl e
      | Inr (required_l, if_available, ax_args) \<Rightarrow>
          (let ax_args1 = (if required_l \<noteq> []
                           then dict_set ax_args ''required'' (join_comma required_l)
                           else ax_args);
               ax_args2 = (if if_available \<noteq> []
                           then dict_set ax_args1 ''if_available'' (join_comma if_available)
                           else ax_args1)
           in Inr ax_args2))"

text \<open>
  \<open>FetchRequest.parseExtensionArgs\<close>. The count of an alias is read with
  \<open>ax_args.get\<close>: a missing or empty \<open>count.<alias>\<close> is an unset count.
\<close>

definition parse_count :: "string option \<Rightarrow> py_error + int option" where
  "parse_count count_s =
     (case count_s of
        None \<Rightarrow> Inr None
      | Some s \<Rightarrow>
          if s = [] then Inr None
          else (case py_int s of None \<Rightarrow> Inl ValueError | Some c \<Rightarrow> Inr (Some c)))"

fun parse_types ::
  "string dict \<Rightarrow> string dict \<Rightarrow> NamespaceMap \<Rightarrow> FetchRequest
     \<Rightarrow> py_error + (NamespaceMap \<times> FetchRequest)" where
  "parse_types ax_args [] aliases self = Inr (aliases, self)"
| "parse_types ax_args ((key, v) # rest) aliases self =
     (if startswith key ''type.'' then
        (case addAlias aliases v (drop 5 key) of
           Inl e \<Rightarrow> Inl e
         | Inr (a, aliases') \<Rightarrow>
             (case parse_count (dict_get ax_args (''count.'' @ a)) of
                Inl e \<Rightarrow> Inl e
              | Inr c \<Rightarrow>
                  (case add self (AttrInfo_init v c False (Some a)) of
                     Inl e \<Rightarrow> Inl e
                   | Inr self' \<Rightarrow> parse_types ax_args rest aliases' self')))
      else parse_types ax_args rest aliases self)"

fun mark_required :: "AttrInfo dict \<Rightarrow> string list \<Rightarrow> py_error + AttrInfo dict" where
  "mark_required attrs [] = Inr attrs"
| "mark_required attrs (t # ts) =
     (case dict_get attrs t of
        None \<Rightarrow> Inl KeyError
      | Some attr \<Rightarrow> mark_required (dict_set attrs t (attr\<lparr>required := True\<rparr>)) ts)"

definition FetchRequest_parseExtensionArgs ::
  "FetchRequest \<Rightarrow> string dict option \<Rightarrow> py_error + FetchRequest" where
  "FetchRequest_parseExtensionArgs self ax_args =
     (case checkMode ''fetch_request'' ax_args of
        Inl e \<Rightarrow> Inl e
      | Inr args \<Rightarrow>
     (case parse_types args args [] self of
        Inl e \<Rightarrow> Inl e
      | Inr (aliases, self1) \<Rightarrow>
     (case toTypeURIs aliases (dict_get args ''required'') of
        Inl e \<Rightarrow> Inl e
      | Inr required_l \<Rightarrow>
     (case mark_required (requested_attributes self1) required_l of
        Inl e \<Rightarrow> Inl e
      | Inr attrs \<Rightarrow>
     (case toTypeURIs aliases (dict_get args ''if_available'') of
        Inl e \<Rightarrow> Inl e
      | Inr if_available \<Rightarrow>
          if list_ex (\<lambda>t. t \<notin> set (required_l @ if_available)) (iterNamespaceURIs aliases)
          then Inl ValueError
          else Inr (self1\<lparr>requested_attributes := attrs,
                         request_update_url := dict_get args ''update_url''\<rparr>))))))"

subsection \<open>Serializing a response\<close>

text \<open>\<open>for i, value in enumerate(values)\<close>: the key of the i-th value counts from 1.\<close>

fun store_values :: "string dict \<Rightarrow> string \<Rightarrow> nat \<Rightarrow> string list \<Rightarrow> string dict" where
  "store_values ax_args a i [] = ax_args"
| "store_values ax_args a i (v # vs) =
     store_values (dict_set ax_args (value_key a (int i + 1)) v) a (Suc i) vs"

text \<open>
  The loop of \<open>FetchResponse.getExtensionArgs\<close>. The limit check comes before the
  test for an unset count, and compares with the count as it is. With an unset count,
  \<open>(value,) = values\<close> is a ValueError unless there is exactly one value.
\<close>

fun response_args ::
  "AttrInfo dict \<Rightarrow> (string list) dict \<Rightarrow> NamespaceMap \<Rightarrow> string dict
     \<Rightarrow> py_error + string dict" where
  "response_args [] d aliases ax_args = Inr ax_args"
| "response_args ((t, attr_request) # rest) d aliases ax_args =
     (case dict_get d t of
        None \<Rightarrow> Inl KeyError
      | Some values \<Rightarrow>
     (case (case attr_alias attr_request of
              None \<Rightarrow> Inr (NamespaceMap_add aliases t)
            | Some a \<Rightarrow> addAlias aliases t a) of
        Inl e \<Rightarrow> Inl e
      | Inr (a, aliases') \<Rightarrow>
          if py2_gt (length values) (count attr_request) then Inl ValueError
          else
            (case count attr_request of
               None \<Rightarrow>
                 (case (if length values = 0 then Inr []
                        else (case values of [v] \<Rightarrow> Inr v | _ \<Rightarrow> Inl ValueError)) of
                    Inl e \<Rightarrow> Inl e
                  | Inr v \<Rightarrow>
                      response_args rest d aliases'
                        (dict_set (dict_set ax_args (''value.'' @ a) v) (''type.'' @ a) t))
             | Some c \<Rightarrow>
                 response_args rest d aliases'
                   (dict_set
                      (dict_set (store_values ax_args a 0 values)
                         (''count.'' @ a) (py_str (int (length values))))
                      (''type.'' @ a) t))))"

text \<open>
  The mapping that \<open>FetchResponse.getExtensionArgs\<close> builds, and the method itself,
  which ends without a \<open>return\<close>: its value is \<open>None\<close>.
\<close>

definition FetchResponse_build_args :: "FetchResponse \<Rightarrow> py_error + string dict" where
  "FetchResponse_build_args self =
     (let ax_args = [(''mode'', ''fetch_response'')];
          ax_args1 = (case update_url self of
                        None \<Rightarrow> ax_args
                      | Some u \<Rightarrow> if u = [] then ax_args else dict_set ax_args ''update_url'' u)
      in case request self of
           None \<Rightarrow> Inl AttributeError
         | Some req \<Rightarrow> response_args (requested_attributes req) (data self) [] ax_args1)"

definition FetchResponse_getExtensionArgs :: "FetchResponse \<Rightarrow> py_error + string dict option" where
  "FetchResponse_getExtensionArgs self =
     (case FetchResponse_build_args self of Inl e \<Rightarrow> Inl e | Inr ax_args \<Rightarrow> Inr None)"

section \<open>Properties\<close>

subsection \<open>Accessors and value limits of a response\<close>

lemma dict_get_set: "dict_get (dict_set d k v) k' = (if k' = k then Some v else dict_get d k')"
  by (simp add: dict_get_def dict_set_def update_conv')

lemma dict_get_None: "dict_get d t = None \<longleftrightarrow> t \<notin> fst ` set d"
  by (simp add: dict_get_def map_of_eq_None_iff)

lemma dict_set_keys: "fst ` set (dict_set d k v) = insert k (fst ` set d)"
  by (simp add: dict_set_def dom_update)

text \<open>
  C8. For a type URI present in the data of a response, \<open>getSingle\<close> returns the default
  when no value is stored, the sole value when one is stored, and fails with the
  multi-value error (ValueError) when more are stored; \<open>get\<close> returns the stored list
  and \<open>count\<close> its length; all three fail with KeyError when the type URI is absent.
\<close>

theorem accessors_spec:
  "(dict_get (data self) t = Some vs \<longrightarrow>
      get self t = Inr vs \<and> FetchResponse_count self t = Inr (length vs) \<and>
      (vs = [] \<longrightarrow> getSingle self t dflt = Inr dflt) \<and>
      (\<forall>v. vs = [v] \<longrightarrow> getSingle self t dflt = Inr (Some v)) \<and>
      (length vs > 1 \<longrightarrow> getSingle self t dflt = Inl ValueError)) \<and>
   (dict_get (data self) t = None \<longrightarrow>
      get self t = Inl KeyError \<and> FetchResponse_count self t = Inl KeyError \<and>
      getSingle self t dflt = Inl KeyError)"
  by (auto simp: get_def getSingle_def FetchResponse_count_def)

theorem accessors_spec_witness:
  "get \<lparr>request = None, data = [(''u'', [''a''])], update_url = None\<rparr> ''u'' = Inr [''a''] \<and>
   FetchResponse_count \<lparr>request = None, data = [(''u'', [''a''])], update_url = None\<rparr> ''u''
     = Inr 1 \<and>
   getSingle \<lparr>request = None, data = [(''u'', [''a''])], update_url = None\<rparr> ''u'' None
     = Inr (Some ''a'') \<and>
   get \<lparr>request = None, data = [(''u'', [''a''])], update_url = None\<rparr> ''w'' = Inl KeyError"
proof -
  let ?r = "\<lparr>request = None, data = [(''u'', [''a''])], update_url = None\<rparr>"
  have h: "dict_get (data ?r) ''u'' = Some [''a'']" and k: "dict_get (data ?r) ''w'' = None"
    by (simp_all add: dict_get_def)
  from accessors_spec [of ?r "''u''" "[''a'']" None] h
       accessors_spec [of ?r "''w''" "[]" None] k
  show ?thesis by simp
qed

text \<open>
  C10. The constructor without a request gives a response whose request is \<open>None\<close>
  (as the parse path builds it), and such a response rejects every \<open>addValue\<close> and
  every \<open>setValues\<close>: the descriptor lookup goes through the absent request before any
  other check, which is an AttributeError.
\<close>

theorem unbound_response_rejects_mutation:
  "FetchResponse_init request_iter None
     = Inr \<lparr>request = None, data = [], update_url = None\<rparr> \<and>
   (request self = None \<longrightarrow>
      addValue self t v = Inl AttributeError \<and> setValues self t values = Inl AttributeError)"
  by (simp add: FetchResponse_init_def addValue_def setValues_def)

theorem unbound_response_rejects_mutation_witness:
  "addValue \<lparr>request = None, data = [], update_url = None\<rparr> ''u'' ''a''
     = Inl AttributeError \<and>
   setValues \<lparr>request = None, data = [], update_url = None\<rparr> ''u'' []
     = Inl AttributeError"
proof -
  let ?r = "\<lparr>request = None, data = [], update_url = None\<rparr> :: FetchResponse"
  have h: "request ?r = None" by simp
  from unbound_response_rejects_mutation [of "\<lambda>r. Inl TypeError" ?r "''u''" "''a''" "[]"] h
  show ?thesis by simp
qed

text \<open>
  C5. With a descriptor of concrete count \<open>N\<close> for a type URI of the response's data:
  \<open>addValue\<close> fails with ValueError exactly when \<open>N\<close> values are stored and otherwise
  appends; \<open>setValues\<close> fails with ValueError exactly when more than \<open>N\<close> values are
  given and otherwise replaces the stored list. A failure is raised before any
  assignment, so it returns no updated object: the response stays as it was.
\<close>

theorem count_enforcement:
  assumes "request self = Some req"
    and "dict_get (requested_attributes req) t = Some attr"
    and "count attr = Some N"
    and "dict_get (data self) t = Some vs"
  shows "(addValue self t v = Inl ValueError \<longleftrightarrow> int (length vs) = N) \<and>
         (int (length vs) \<noteq> N \<longrightarrow>
            addValue self t v = Inr (self\<lparr>data := dict_set (data self) t (vs @ [v])\<rparr>)) \<and>
         (setValues self t values = Inl ValueError \<longleftrightarrow> int (length values) > N) \<and>
         (int (length values) \<le> N \<longrightarrow>
            setValues self t values = Inr (self\<lparr>data := dict_set (data self) t values\<rparr>))"
  using assms by (auto simp: addValue_def setValues_def py2_eq_def py2_gt_def)

theorem count_enforcement_witness:
  "addValue \<lparr>request = Some \<lparr>requested_attributes = [(''u'', AttrInfo_init ''u'' (Some 1) False None)],
                              request_update_url = None\<rparr>,
             data = [(''u'', [''a''])], update_url = None\<rparr> ''u'' ''b'' = Inl ValueError \<and>
   setValues \<lparr>request = Some \<lparr>requested_attributes = [(''u'', AttrInfo_init ''u'' (Some 1) False None)],
                               request_update_url = None\<rparr>,
              data = [(''u'', [''a''])], update_url = None\<rparr> ''u'' [''c'']
     = Inr \<lparr>request = Some \<lparr>requested_attributes = [(''u'', AttrInfo_init ''u'' (Some 1) False None)],
                              request_update_url = None\<rparr>,
             data = [(''u'', [''c''])], update_url = None\<rparr>"
proof -
  let ?q = "\<lparr>requested_attributes = [(''u'', AttrInfo_init ''u'' (Some 1) False None)],
             request_update_url = None\<rparr>"
  let ?r = "\<lparr>request = Some ?q, data = [(''u'', [''a''])], update_url = None\<rparr>"
  have a: "request ?r = Some ?q" by simp
  have b: "dict_get (requested_attributes ?q) ''u'' = Some (AttrInfo_init ''u'' (Some 1) False None)"
    by (simp add: dict_get_def)
  have c: "count (AttrInfo_init ''u'' (Some 1) False None) = Some 1"
    by (simp add: AttrInfo_init_def)
  have d: "dict_get (data ?r) ''u'' = Some [''a'']" by (simp add: dict_get_def)
  from count_enforcement [OF a b c d, of "''b''" "[''c'']"]
  show ?thesis by (simp add: dict_set_def)
qed

text \<open>
  C4 (the code departs from it). With a descriptor whose count is unset, \<open>addValue\<close>
  compares the number of stored values with \<open>None\<close>, which is never equal, so a second
  value is appended; \<open>setValues\<close> compares the number of given values with \<open>None\<close>,
  which Python 2 orders below every integer, so even an empty or a one-element list is
  refused.
\<close>

theorem unset_count_limit_not_enforced:
  "addValue \<lparr>request = Some \<lparr>requested_attributes = [(''u'', AttrInfo_init ''u'' None False None)],
                              request_update_url = None\<rparr>,
             data = [(''u'', [''a''])], update_url = None\<rparr> ''u'' ''b''
     = Inr \<lparr>request = Some \<lparr>requested_attributes = [(''u'', AttrInfo_init ''u'' None False None)],
                              request_update_url = None\<rparr>,
             data = [(''u'', [''a'', ''b''])], update_url = None\<rparr> \<and>
   setValues \<lparr>request = Some \<lparr>requested_attributes = [(''u'', AttrInfo_init ''u'' None False None)],
                               request_update_url = None\<rparr>,
              data = [(''u'', [])], update_url = None\<rparr> ''u'' [''a''] = Inl ValueError \<and>
   setValues \<lparr>request = Some \<lparr>requested_attributes = [(''u'', AttrInfo_init ''u'' None False None)],
                               request_update_url = None\<rparr>,
              data = [(''u'', [])], update_url = None\<rparr> ''u'' [] = Inl ValueError"
  by (simp add: addValue_def setValues_def py2_eq_def py2_gt_def dict_get_def dict_set_def
      AttrInfo_init_def)

subsection \<open>The alias registry and the value parser\<close>

lemma getNamespaceURI_None: "getNamespaceURI nm a = None \<longleftrightarrow> a \<notin> snd ` set nm"
  by (induction nm) (auto simp: getNamespaceURI_def)

lemma getNamespaceURI_Some: "getNamespaceURI nm a = Some u \<Longrightarrow> (u, a) \<in> set nm"
  by (induction nm) (auto simp: getNamespaceURI_def split: if_splits)

lemma getAlias_None: "getAlias nm u = None \<longleftrightarrow> u \<notin> fst ` set nm"
  by (simp add: getAlias_def map_of_eq_None_iff)

lemma addAlias_Inr:
  assumes "addAlias nm u a = Inr (x, nm')"
  shows "set nm \<subseteq> set nm' \<and> (u, a) \<in> set nm' \<and> set nm' \<subseteq> insert (u, a) (set nm) \<and>
         (distinct (map fst nm) \<longrightarrow> distinct (map fst nm'))"
  using assms
  by (auto simp: addAlias_def getAlias_None dest: getNamespaceURI_Some
      split: option.splits if_splits)

lemma addAlias_result:
  "addAlias nm u a = Inr (x, nm') \<Longrightarrow> x = a \<and> set nm' = insert (u, a) (set nm)"
  by (auto simp: addAlias_def dest: getNamespaceURI_Some split: option.splits if_splits)

lemma register_types_Inr:
  "register_types args nm0 = Inr nm \<Longrightarrow>
     set nm0 \<subseteq> set nm \<and>
     (\<forall>k v. (k, v) \<in> set args \<and> startswith k ''type.'' \<longrightarrow> (v, drop 5 k) \<in> set nm) \<and>
     (distinct (map fst nm0) \<longrightarrow> distinct (map fst nm))"
proof (induction args arbitrary: nm0)
  case Nil
  then show ?case by simp
next
  case (Cons p args)
  obtain k v where p: "p = (k, v)" by (cases p)
  show ?case
  proof (cases "startswith k ''type.''")
    case False
    with Cons p show ?thesis by auto
  next
    case True
    with Cons.prems p obtain x nm1 where
      a: "addAlias nm0 v (drop 5 k) = Inr (x, nm1)" and r: "register_types args nm1 = Inr nm"
      by (auto split: sum.splits)
    from addAlias_Inr [OF a] Cons.IH [OF r] p True show ?thesis by auto
  qed
qed

lemma read_values_Inr:
  "read_values args a is = Inr vs \<Longrightarrow> map Some vs = map (\<lambda>i. dict_get args (value_key a i)) is"
  by (induction "is" arbitrary: vs) (auto split: option.splits sum.splits)

lemma parse_aliases_keeps:
  "parse_aliases args nm s d = Inr (s', d') \<Longrightarrow>
     set s \<subseteq> set s' \<and> (t \<notin> fst ` set nm \<longrightarrow> dict_get d' t = dict_get d t)"
proof (induction nm arbitrary: s d)
  case Nil
  then show ?case by simp
next
  case (Cons p nm)
  obtain u a where p: "p = (u, a)" by (cases p)
  from Cons.prems p show ?case
    by (auto split: option.splits sum.splits dest!: Cons.IH simp: dict_get_set)
qed


lemma parse_aliases_post:
  "distinct (map fst nm) \<Longrightarrow> parse_aliases args nm s d = Inr (s', d') \<Longrightarrow> (t, a) \<in> set nm \<Longrightarrow>
     (case dict_get args (''count.'' @ a) of
        None \<Rightarrow> t \<in> set s' \<and>
          (\<exists>v. dict_get args (''value.'' @ a) = Some v \<and>
               dict_get d' t = Some (if v = [] then [] else [v]))
      | Some cs \<Rightarrow>
          (\<exists>n vs. py_int cs = Some n \<and> dict_get d' t = Some vs \<and>
                  map Some vs = map (\<lambda>i. dict_get args (value_key a i)) [1 .. n]))"
proof (induction nm arbitrary: s d)
  case Nil
  then show ?case by simp
next
  case (Cons p nm)
  obtain u b where p: "p = (u, b)" by (cases p)
  show ?case
  proof (cases "(t, a) = (u, b)")
    case False
    with Cons.prems p have m: "(t, a) \<in> set nm" and dn: "distinct (map fst nm)" by auto
    from Cons.prems(2) p obtain s1 d1 where "parse_aliases args nm s1 d1 = Inr (s', d')"
      by (auto split: option.splits sum.splits)
    from Cons.IH [OF dn this m] show ?thesis .
  next
    case True
    with Cons.prems(1) p have fresh: "t \<notin> fst ` set nm" by auto
    show ?thesis
    proof (cases "dict_get args (''count.'' @ a)")
      case None
      with Cons.prems(2) p True obtain v where
        v: "dict_get args (''value.'' @ a) = Some v" and
        r: "parse_aliases args nm (s @ [t]) (dict_set d t (if v = [] then [] else [v])) = Inr (s', d')"
        by (auto split: option.splits)
      from parse_aliases_keeps [OF r, of t] fresh
      have "t \<in> set s'" and "dict_get d' t = Some (if v = [] then [] else [v])"
        by (auto simp: dict_get_set)
      with None v show ?thesis by simp
    next
      case (Some cs)
      with Cons.prems(2) p True obtain n vs where
        n: "py_int cs = Some n" and rv: "read_values args a [1 .. n] = Inr vs" and
        r: "parse_aliases args nm s (dict_set d t vs) = Inr (s', d')"
        by (auto split: option.splits sum.splits)
      from parse_aliases_keeps [OF r, of t] fresh
      have "dict_get d' t = Some vs" by (auto simp: dict_get_set)
      with Some n read_values_Inr [OF rv] show ?thesis by simp
    qed
  qed
qed

lemma startswith_type: "startswith (''type.'' @ a) ''type.''"
  by (simp add: startswith_def)

lemma parseAXValues_post:
  assumes b: "dict_get ax_args (''type.'' @ a) = Some t"
    and r: "parseAXValues ax_args = Inr (singletons, d)"
  shows "(case dict_get ax_args (''count.'' @ a) of
        None \<Rightarrow> t \<in> set singletons \<and>
          (\<exists>v. dict_get ax_args (''value.'' @ a) = Some v \<and>
               dict_get d t = Some (if v = [] then [] else [v]))
      | Some cs \<Rightarrow>
          (\<exists>n vs. py_int cs = Some n \<and> dict_get d t = Some vs \<and>
                  map Some vs = map (\<lambda>i. dict_get ax_args (value_key a i)) [1 .. n]))"
proof -
  from r obtain nm where g: "register_types ax_args [] = Inr nm"
    and p: "parse_aliases ax_args nm [] [] = Inr (singletons, d)"
    by (auto simp: parseAXValues_def split: sum.splits)
  from b have "(''type.'' @ a, t) \<in> set ax_args"
    by (simp add: dict_get_def map_of_SomeD)
  with register_types_Inr [OF g] startswith_type [of a]
  have "(t, drop 5 (''type.'' @ a)) \<in> set nm" by blast
  moreover from register_types_Inr [OF g] have dn: "distinct (map fst nm)" by simp
  ultimately have m: "(t, a) \<in> set nm" by simp
  from parse_aliases_post [OF dn p m] show ?thesis .
qed

lemma parseAXValues_alias_cases:
  assumes "dict_get ax_args (''type.'' @ a) = Some t"
  shows "(parseAXValues ax_args = Inr (singletons, d) \<longrightarrow>
            (case dict_get ax_args (''count.'' @ a) of
               None \<Rightarrow> t \<in> set singletons \<and>
                 (\<exists>v. dict_get ax_args (''value.'' @ a) = Some v \<and>
                      dict_get d t = Some (if v = [] then [] else [v]))
             | Some cs \<Rightarrow>
                 (\<exists>n vs. py_int cs = Some n \<and> dict_get d t = Some vs \<and>
                    map Some vs = map (\<lambda>i. dict_get ax_args (value_key a i)) [1 .. n]))) \<and>
         (dict_get ax_args (''count.'' @ a) = None \<and> dict_get ax_args (''value.'' @ a) = None
            \<longrightarrow> isl (parseAXValues ax_args)) \<and>
         (\<forall>cs. dict_get ax_args (''count.'' @ a) = Some cs \<and> py_int cs = None
            \<longrightarrow> isl (parseAXValues ax_args)) \<and>
         (\<forall>cs n i. dict_get ax_args (''count.'' @ a) = Some cs \<and> py_int cs = Some n \<and>
                   1 \<le> i \<and> i \<le> n \<and> dict_get ax_args (value_key a i) = None
            \<longrightarrow> isl (parseAXValues ax_args))"
proof (intro conjI impI allI)
  assume "parseAXValues ax_args = Inr (singletons, d)"
  from parseAXValues_post [OF assms this]
  show "case dict_get ax_args (''count.'' @ a) of
               None \<Rightarrow> t \<in> set singletons \<and>
                 (\<exists>v. dict_get ax_args (''value.'' @ a) = Some v \<and>
                      dict_get d t = Some (if v = [] then [] else [v]))
             | Some cs \<Rightarrow>
                 (\<exists>n vs. py_int cs = Some n \<and> dict_get d t = Some vs \<and>
                    map Some vs = map (\<lambda>i. dict_get ax_args (value_key a i)) [1 .. n])" .
next
  assume h: "dict_get ax_args (''count.'' @ a) = None \<and> dict_get ax_args (''value.'' @ a) = None"
  show "isl (parseAXValues ax_args)"
  proof (cases "parseAXValues ax_args")
    case (Inr q)
    obtain s' d' where "q = (s', d')" by (cases q)
    with Inr parseAXValues_post [OF assms, of s' d'] h show ?thesis by simp
  qed simp
next
  fix cs assume h: "dict_get ax_args (''count.'' @ a) = Some cs \<and> py_int cs = None"
  show "isl (parseAXValues ax_args)"
  proof (cases "parseAXValues ax_args")
    case (Inr q)
    obtain s' d' where "q = (s', d')" by (cases q)
    with Inr parseAXValues_post [OF assms, of s' d'] h show ?thesis by simp
  qed simp
next
  fix cs n i
  assume h: "dict_get ax_args (''count.'' @ a) = Some cs \<and> py_int cs = Some n \<and>
             1 \<le> i \<and> i \<le> n \<and> dict_get ax_args (value_key a i) = None"
  show "isl (parseAXValues ax_args)"
  proof (cases "parseAXValues ax_args")
    case (Inr q)
    obtain s' d' where "q = (s', d')" by (cases q)
    with Inr parseAXValues_post [OF assms, of s' d'] h
    obtain vs where "map Some vs = map (\<lambda>i. dict_get ax_args (value_key a i)) [1 .. n]"
      by auto
    then have all: "\<forall>j \<in> set [1 .. n]. dict_get ax_args (value_key a j) \<noteq> None"
      by (metis (no_types, lifting) imageE list.set_map option.distinct(1) image_eqI)
    from h have "i \<in> set [1 .. n]" by simp
    with all have "dict_get ax_args (value_key a i) \<noteq> None" by blast
    with h show ?thesis by blast
  qed simp
qed

lemma addAlias_succeeds:
  assumes "\<forall>p \<in> insert (u, a) (set nm). \<forall>q \<in> insert (u, a) (set nm).
             (fst p = fst q) = (snd p = snd q)"
  shows "\<exists>nm'. addAlias nm u a = Inr (a, nm')"
proof (cases "getNamespaceURI nm a")
  case (Some u')
  from getNamespaceURI_Some [OF Some] have "(u', a) \<in> set nm" .
  with assms have "(fst (u', a) = fst (u, a)) = (snd (u', a) = snd (u, a))" by blast
  then have "u' = u" by simp
  with Some show ?thesis by (simp add: addAlias_def)
next
  case None
  have "getAlias nm u = None"
  proof (rule ccontr)
    assume "getAlias nm u \<noteq> None"
    then obtain a' where "getAlias nm u = Some a'" by blast
    then have m: "(u, a') \<in> set nm" by (simp add: getAlias_def map_of_SomeD)
    with assms have "(fst (u, a') = fst (u, a)) = (snd (u, a') = snd (u, a))" by blast
    then have "a' = a" by simp
    with m have "a \<in> snd ` set nm" by force
    with None show False by (simp add: getNamespaceURI_None)
  qed
  with None show ?thesis by (simp add: addAlias_def)
qed

lemma register_types_succeeds:
  "\<forall>p \<in> set nm0 \<union> {(v, drop 5 k) | k v. (k, v) \<in> set args \<and> startswith k ''type.''}.
   \<forall>q \<in> set nm0 \<union> {(v, drop 5 k) | k v. (k, v) \<in> set args \<and> startswith k ''type.''}.
     (fst p = fst q) = (snd p = snd q) \<Longrightarrow>
   \<exists>nm. register_types args nm0 = Inr nm \<and>
        set nm = set nm0 \<union> {(v, drop 5 k) | k v. (k, v) \<in> set args \<and> startswith k ''type.''}"
proof (induction args arbitrary: nm0)
  case Nil
  then show ?case by simp
next
  case (Cons p args)
  obtain k v where p: "p = (k, v)" by (cases p)
  let ?D = "\<lambda>xs. {(v, drop 5 k) | k v. (k, v) \<in> set xs \<and> startswith k ''type.''}"
  show ?case
  proof (cases "startswith k ''type.''")
    case False
    with p have eq: "?D (p # args) = ?D args" by auto
    from Cons.prems have "\<forall>x \<in> set nm0 \<union> ?D args. \<forall>y \<in> set nm0 \<union> ?D args.
        (fst x = fst y) = (snd x = snd y)"
      unfolding eq .
    from Cons.IH [OF this] False p eq show ?thesis by simp
  next
    case True
    with p have eq: "?D (p # args) = insert (v, drop 5 k) (?D args)" by auto
    note cons = Cons.prems [unfolded eq]
    have "\<forall>x \<in> insert (v, drop 5 k) (set nm0). \<forall>y \<in> insert (v, drop 5 k) (set nm0).
        (fst x = fst y) = (snd x = snd y)"
      using cons by blast
    from addAlias_succeeds [OF this] obtain nm1 where
      a: "addAlias nm0 v (drop 5 k) = Inr (drop 5 k, nm1)" by blast
    from addAlias_result [OF a] have nm1: "set nm1 = insert (v, drop 5 k) (set nm0)" by simp
    have "\<forall>x \<in> set nm1 \<union> ?D args. \<forall>y \<in> set nm1 \<union> ?D args.
        (fst x = fst y) = (snd x = snd y)"
      using cons unfolding nm1 by blast
    from Cons.IH [OF this] obtain nm where
      r: "register_types args nm1 = Inr nm" and s: "set nm = set nm1 \<union> ?D args" by blast
    from r a True p have "register_types (p # args) nm0 = Inr nm" by simp
    moreover from s nm1 eq have "set nm = set nm0 \<union> ?D (p # args)" by blast
    ultimately show ?thesis by blast
  qed
qed

lemma read_values_succeeds:
  "\<forall>i \<in> set is. dict_get args (value_key a i) \<noteq> None \<Longrightarrow> \<exists>vs. read_values args a is = Inr vs"
  by (induction "is") auto

lemma parse_aliases_succeeds:
  "\<forall>(t, a) \<in> set nm.
     (case dict_get args (''count.'' @ a) of
        None \<Rightarrow> dict_get args (''value.'' @ a) \<noteq> None
      | Some cs \<Rightarrow> (\<exists>n. py_int cs = Some n \<and>
                        (\<forall>i \<in> {1 .. n}. dict_get args (value_key a i) \<noteq> None))) \<Longrightarrow>
   \<exists>s' d'. parse_aliases args nm s d = Inr (s', d')"
proof (induction nm arbitrary: s d)
  case Nil
  then show ?case by simp
next
  case (Cons p nm)
  obtain t a where p: "p = (t, a)" by (cases p)
  from Cons.prems have rest: "\<forall>(t, a) \<in> set nm.
     (case dict_get args (''count.'' @ a) of
        None \<Rightarrow> dict_get args (''value.'' @ a) \<noteq> None
      | Some cs \<Rightarrow> (\<exists>n. py_int cs = Some n \<and>
                        (\<forall>i \<in> {1 .. n}. dict_get args (value_key a i) \<noteq> None)))"
    by simp
  from Cons.prems p have here:
    "case dict_get args (''count.'' @ a) of
        None \<Rightarrow> dict_get args (''value.'' @ a) \<noteq> None
      | Some cs \<Rightarrow> (\<exists>n. py_int cs = Some n \<and>
                        (\<forall>i \<in> {1 .. n}. dict_get args (value_key a i) \<noteq> None))"
    by simp
  show ?case
  proof (cases "dict_get args (''count.'' @ a)")
    case None
    with here obtain v where v: "dict_get args (''value.'' @ a) = Some v" by auto
    from Cons.IH [OF rest, of "s @ [t]" "dict_set d t (if v = [] then [] else [v])"]
    show ?thesis using None v p by simp
  next
    case (Some cs)
    with here obtain n where n: "py_int cs = Some n"
      and all: "\<forall>i \<in> {1 .. n}. dict_get args (value_key a i) \<noteq> None" by auto
    from all have "\<forall>i \<in> set [1 .. n]. dict_get args (value_key a i) \<noteq> None" by simp
    from read_values_succeeds [OF this] obtain vs where
      vs: "read_values args a [1 .. n] = Inr vs" by blast
    from Cons.IH [OF rest, of s "dict_set d t vs"]
    show ?thesis using Some n vs p by simp
  qed
qed

lemma parseAXValues_succeeds:
  assumes cons: "\<forall>k v k' v'. (k, v) \<in> set ax_args \<and> (k', v') \<in> set ax_args \<and>
            startswith k ''type.'' \<and> startswith k' ''type.''
              \<longrightarrow> (v = v') = (drop 5 k = drop 5 k')"
    and ok: "\<forall>k v. (k, v) \<in> set ax_args \<and> startswith k ''type.'' \<longrightarrow>
          (case dict_get ax_args (''count.'' @ drop 5 k) of
             None \<Rightarrow> dict_get ax_args (''value.'' @ drop 5 k) \<noteq> None
           | Some cs \<Rightarrow> (\<exists>n. py_int cs = Some n \<and>
                (\<forall>i \<in> {1 .. n}. dict_get ax_args (value_key (drop 5 k) i) \<noteq> None)))"
  shows "\<exists>s d. parseAXValues ax_args = Inr (s, d)"
proof -
  let ?D = "{(v, drop 5 k) | k v. (k, v) \<in> set ax_args \<and> startswith k ''type.''}"
  have "\<forall>p \<in> set ([] :: NamespaceMap) \<union> ?D. \<forall>q \<in> set ([] :: NamespaceMap) \<union> ?D.
          (fst p = fst q) = (snd p = snd q)"
    using cons by auto
  from register_types_succeeds [OF this] obtain nm where
    r: "register_types ax_args [] = Inr nm" and s: "set nm = ?D" by auto
  have "\<forall>(t, a) \<in> set nm.
     (case dict_get ax_args (''count.'' @ a) of
        None \<Rightarrow> dict_get ax_args (''value.'' @ a) \<noteq> None
      | Some cs \<Rightarrow> (\<exists>n. py_int cs = Some n \<and>
                        (\<forall>i \<in> {1 .. n}. dict_get ax_args (value_key a i) \<noteq> None)))"
    unfolding s using ok by blast
  from parse_aliases_succeeds [OF this, of "[]" "[]"] r
  show ?thesis by (simp add: parseAXValues_def)
qed

lemma addAlias_distinct:
  assumes "addAlias nm u a = Inr (x, nm')"
    and "distinct (map fst nm)" and "distinct (map snd nm)"
  shows "distinct (map fst nm') \<and> distinct (map snd nm')"
  using assms
  by (auto simp: addAlias_def getAlias_None getNamespaceURI_None split: option.splits if_splits)

lemma register_types_distinct:
  "register_types args nm0 = Inr nm \<Longrightarrow> distinct (map fst nm0) \<Longrightarrow> distinct (map snd nm0) \<Longrightarrow>
     distinct (map fst nm) \<and> distinct (map snd nm)"
proof (induction args arbitrary: nm0)
  case Nil
  then show ?case by simp
next
  case (Cons p args)
  obtain k v where p: "p = (k, v)" by (cases p)
  show ?case
  proof (cases "startswith k ''type.''")
    case False
    with Cons p show ?thesis by simp
  next
    case True
    with Cons.prems(1) p obtain x nm1 where
      a: "addAlias nm0 v (drop 5 k) = Inr (x, nm1)" and r: "register_types args nm1 = Inr nm"
      by (auto split: sum.splits)
    from addAlias_distinct [OF a Cons.prems(2,3)] Cons.IH [OF r] show ?thesis by blast
  qed
qed

lemma distinct_snd_unique:
  "distinct (map snd xs) \<Longrightarrow> (x, y) \<in> set xs \<Longrightarrow> (x', y) \<in> set xs \<Longrightarrow> x = x'"
  by (induction xs) force+

lemma startswith_type_split:
  assumes "startswith k ''type.''"
  shows "k = ''type.'' @ drop 5 k"
proof -
  have l: "length ''type.'' = 5" by simp
  from assms have "take (length ''type.'') k = ''type.''" unfolding startswith_def .
  then have "take 5 k = ''type.''" unfolding l .
  then show ?thesis by (metis append_take_drop_id)
qed

lemma parseAXValues_Inr_wellformed:
  assumes r: "parseAXValues ax_args = Inr (s, d)"
  shows "(\<forall>k v k' v'. (k, v) \<in> set ax_args \<and> (k', v') \<in> set ax_args \<and>
            startswith k ''type.'' \<and> startswith k' ''type.''
              \<longrightarrow> (v = v') = (drop 5 k = drop 5 k')) \<and>
         (\<forall>k v. (k, v) \<in> set ax_args \<and> startswith k ''type.'' \<longrightarrow>
          (case dict_get ax_args (''count.'' @ drop 5 k) of
             None \<Rightarrow> dict_get ax_args (''value.'' @ drop 5 k) \<noteq> None
           | Some cs \<Rightarrow> (\<exists>n. py_int cs = Some n \<and>
                (\<forall>i \<in> {1 .. n}. dict_get ax_args (value_key (drop 5 k) i) \<noteq> None))))"
proof (intro conjI allI impI)
  from r obtain nm where g: "register_types ax_args [] = Inr nm"
    by (auto simp: parseAXValues_def split: sum.splits)
  from register_types_distinct [OF g] have df: "distinct (map fst nm)" and ds: "distinct (map snd nm)"
    by simp_all
  fix k v k' v'
  assume h: "(k, v) \<in> set ax_args \<and> (k', v') \<in> set ax_args \<and>
            startswith k ''type.'' \<and> startswith k' ''type.''"
  with register_types_Inr [OF g]
  have m: "(v, drop 5 k) \<in> set nm" and m': "(v', drop 5 k') \<in> set nm" by blast+
  show "(v = v') = (drop 5 k = drop 5 k')"
  proof
    assume "v = v'"
    with m m' eq_key_imp_eq_value [OF df] show "drop 5 k = drop 5 k'" by blast
  next
    assume "drop 5 k = drop 5 k'"
    with m m' distinct_snd_unique [OF ds] show "v = v'" by metis
  qed
next
  fix k v
  assume h: "(k, v) \<in> set ax_args \<and> startswith k ''type.''"
  then have k: "k = ''type.'' @ drop 5 k" using startswith_type_split [of k] by blast
  from h have "k \<in> fst ` set ax_args" by force
  then have "dict_get ax_args k \<noteq> None"
    by (simp add: dict_get_def map_of_eq_None_iff)
  then obtain t where "dict_get ax_args k = Some t" by blast
  with k have b: "dict_get ax_args (''type.'' @ drop 5 k) = Some t" by simp
  let ?a = "drop 5 k"
  from parseAXValues_post [OF b r]
  show "case dict_get ax_args (''count.'' @ ?a) of
             None \<Rightarrow> dict_get ax_args (''value.'' @ ?a) \<noteq> None
           | Some cs \<Rightarrow> (\<exists>n. py_int cs = Some n \<and>
                (\<forall>i \<in> {1 .. n}. dict_get ax_args (value_key ?a i) \<noteq> None))"
  proof (cases "dict_get ax_args (''count.'' @ ?a)")
    case None
    with parseAXValues_post [OF b r] show ?thesis by auto
  next
    case (Some cs)
    with parseAXValues_post [OF b r] obtain n vs where n: "py_int cs = Some n"
      and vs: "map Some vs = map (\<lambda>i. dict_get ax_args (value_key ?a i)) [1 .. n]"
      by auto
    from vs have "\<forall>j \<in> set [1 .. n]. dict_get ax_args (value_key ?a j) \<noteq> None"
      by (metis (no_types, lifting) imageE list.set_map option.distinct(1) image_eqI)
    with Some n show ?thesis by simp
  qed
qed

lemma register_types_set:
  "register_types args nm0 = Inr nm \<Longrightarrow>
     set nm = set nm0 \<union> {(v, drop 5 k) | k v. (k, v) \<in> set args \<and> startswith k ''type.''}"
proof (induction args arbitrary: nm0)
  case Nil
  then show ?case by simp
next
  case (Cons p args)
  obtain k v where p: "p = (k, v)" by (cases p)
  show ?case
  proof (cases "startswith k ''type.''")
    case False
    with Cons.prems p have "register_types args nm0 = Inr nm" by simp
    from Cons.IH [OF this] False p show ?thesis by auto
  next
    case True
    with Cons.prems p obtain x nm1 where
      a: "addAlias nm0 v (drop 5 k) = Inr (x, nm1)" and r: "register_types args nm1 = Inr nm"
      by (auto split: sum.splits)
    from addAlias_result [OF a] have "set nm1 = insert (v, drop 5 k) (set nm0)" by simp
    with Cons.IH [OF r] p True show ?thesis by auto
  qed
qed

lemma parse_aliases_result:
  "parse_aliases args nm s d = Inr (s', d') \<Longrightarrow>
     set s' = set s \<union> {t. \<exists>a. (t, a) \<in> set nm \<and> dict_get args (''count.'' @ a) = None} \<and>
     fst ` set d' = fst ` set d \<union> fst ` set nm"
proof (induction nm arbitrary: s d)
  case Nil
  then show ?case by simp
next
  case (Cons p nm)
  obtain t a where p: "p = (t, a)" by (cases p)
  show ?case
  proof (cases "dict_get args (''count.'' @ a)")
    case None
    with Cons.prems p obtain v where
      r: "parse_aliases args nm (s @ [t]) (dict_set d t (if v = [] then [] else [v])) = Inr (s', d')"
      by (auto split: option.splits)
    from Cons.IH [OF r] None p show ?thesis by (auto simp: dict_set_keys)
  next
    case (Some cs)
    with Cons.prems p obtain vs where
      r: "parse_aliases args nm s (dict_set d t vs) = Inr (s', d')"
      by (auto split: option.splits sum.splits)
    from Cons.IH [OF r] Some p show ?thesis by (auto simp: dict_set_keys)
  qed
qed

lemma parseAXValues_result:
  assumes r: "parseAXValues ax_args = Inr (singletons, d)"
  shows "set singletons =
           {v. \<exists>k. (k, v) \<in> set ax_args \<and> startswith k ''type.'' \<and>
                   dict_get ax_args (''count.'' @ drop 5 k) = None} \<and>
         fst ` set d = {v. \<exists>k. (k, v) \<in> set ax_args \<and> startswith k ''type.''}"
proof -
  from r obtain nm where g: "register_types ax_args [] = Inr nm"
    and p: "parse_aliases ax_args nm [] [] = Inr (singletons, d)"
    by (auto simp: parseAXValues_def split: sum.splits)
  from register_types_set [OF g]
  have nm: "set nm = {(v, drop 5 k) | k v. (k, v) \<in> set ax_args \<and> startswith k ''type.''}"
    by simp
  from parse_aliases_result [OF p]
  have s: "set singletons = {t. \<exists>a. (t, a) \<in> set nm \<and> dict_get ax_args (''count.'' @ a) = None}"
    and k: "fst ` set d = fst ` set nm" by simp_all
  from s have "set singletons =
           {v. \<exists>k. (k, v) \<in> set ax_args \<and> startswith k ''type.'' \<and>
                   dict_get ax_args (''count.'' @ drop 5 k) = None}"
    unfolding nm by blast
  moreover have "fst ` set nm = {v. \<exists>k. (k, v) \<in> set ax_args \<and> startswith k ''type.''}"
  proof (intro set_eqI iffI)
    fix x assume "x \<in> fst ` set nm"
    then obtain y where "(x, y) \<in> set nm" by auto
    then show "x \<in> {v. \<exists>k. (k, v) \<in> set ax_args \<and> startswith k ''type.''}"
      unfolding nm by blast
  next
    fix x assume "x \<in> {v. \<exists>k. (k, v) \<in> set ax_args \<and> startswith k ''type.''}"
    then obtain k where "(k, x) \<in> set ax_args" and "startswith k ''type.''" by blast
    then have "(x, drop 5 k) \<in> set nm" unfolding nm by blast
    then show "x \<in> fst ` set nm" by force
  qed
  ultimately show ?thesis using k by simp
qed

text \<open>
  C7. For an alias bound by a \<open>type.<alias>\<close> key of the arguments: when
  \<open>parseAXValues\<close> returns, then without a \<open>count.<alias>\<close> key the type URI is among
  the singletons and its values are none for an empty \<open>value.<alias>\<close> and that one
  value otherwise; with a \<open>count.<alias>\<close> key the count is an integer \<open>n\<close> and the
  values are those of \<open>value.<alias>.1\<close> to \<open>value.<alias>.n\<close>, in order and all
  present. The parse fails when \<open>value.<alias>\<close> is missing on the first path, when
  the count is no integer, and when one of the \<open>n\<close> values is missing. It returns
  exactly when the \<open>type.<alias>\<close> keys bind aliases and type URIs one to one and
  every bound alias has its value, or an integer count and all its numbered values. What
  it returns has the type URIs bound without a count as singletons, and the bound type
  URIs as the keys of the data.
\<close>

theorem parseAXValues_per_alias:
  assumes "dict_get ax_args (''type.'' @ a) = Some t"
  shows "(parseAXValues ax_args = Inr (singletons, d) \<longrightarrow>
            (case dict_get ax_args (''count.'' @ a) of
               None \<Rightarrow> t \<in> set singletons \<and>
                 (\<exists>v. dict_get ax_args (''value.'' @ a) = Some v \<and>
                      dict_get d t = Some (if v = [] then [] else [v]))
             | Some cs \<Rightarrow>
                 (\<exists>n vs. py_int cs = Some n \<and> dict_get d t = Some vs \<and>
                    map Some vs = map (\<lambda>i. dict_get ax_args (value_key a i)) [1 .. n]))) \<and>
         (dict_get ax_args (''count.'' @ a) = None \<and> dict_get ax_args (''value.'' @ a) = None
            \<longrightarrow> isl (parseAXValues ax_args)) \<and>
         (\<forall>cs. dict_get ax_args (''count.'' @ a) = Some cs \<and> py_int cs = None
            \<longrightarrow> isl (parseAXValues ax_args)) \<and>
         (\<forall>cs n i. dict_get ax_args (''count.'' @ a) = Some cs \<and> py_int cs = Some n \<and>
                   1 \<le> i \<and> i \<le> n \<and> dict_get ax_args (value_key a i) = None
            \<longrightarrow> isl (parseAXValues ax_args)) \<and>
         ((\<exists>s d'. parseAXValues ax_args = Inr (s, d')) \<longleftrightarrow>
            (\<forall>k v k' v'. (k, v) \<in> set ax_args \<and> (k', v') \<in> set ax_args \<and>
                startswith k ''type.'' \<and> startswith k' ''type.''
                  \<longrightarrow> (v = v') = (drop 5 k = drop 5 k')) \<and>
            (\<forall>k v. (k, v) \<in> set ax_args \<and> startswith k ''type.'' \<longrightarrow>
               (case dict_get ax_args (''count.'' @ drop 5 k) of
                  None \<Rightarrow> dict_get ax_args (''value.'' @ drop 5 k) \<noteq> None
                | Some cs \<Rightarrow> (\<exists>n. py_int cs = Some n \<and>
                    (\<forall>i \<in> {1 .. n}. dict_get ax_args (value_key (drop 5 k) i) \<noteq> None))))) \<and>
         (parseAXValues ax_args = Inr (singletons, d) \<longrightarrow>
            set singletons =
              {v. \<exists>k. (k, v) \<in> set ax_args \<and> startswith k ''type.'' \<and>
                      dict_get ax_args (''count.'' @ drop 5 k) = None} \<and>
            fst ` set d = {v. \<exists>k. (k, v) \<in> set ax_args \<and> startswith k ''type.''})"
proof -
  note cases = parseAXValues_alias_cases [OF assms, of singletons d]
  have iff: "(\<exists>s d'. parseAXValues ax_args = Inr (s, d')) \<longleftrightarrow>
            (\<forall>k v k' v'. (k, v) \<in> set ax_args \<and> (k', v') \<in> set ax_args \<and>
                startswith k ''type.'' \<and> startswith k' ''type.''
                  \<longrightarrow> (v = v') = (drop 5 k = drop 5 k')) \<and>
            (\<forall>k v. (k, v) \<in> set ax_args \<and> startswith k ''type.'' \<longrightarrow>
               (case dict_get ax_args (''count.'' @ drop 5 k) of
                  None \<Rightarrow> dict_get ax_args (''value.'' @ drop 5 k) \<noteq> None
                | Some cs \<Rightarrow> (\<exists>n. py_int cs = Some n \<and>
                    (\<forall>i \<in> {1 .. n}. dict_get ax_args (value_key (drop 5 k) i) \<noteq> None))))"
    (is "?L \<longleftrightarrow> ?R")
  proof
    assume ?L
    then obtain s d' where "parseAXValues ax_args = Inr (s, d')" by blast
    from parseAXValues_Inr_wellformed [OF this] show ?R .
  next
    assume ?R
    then show ?L using parseAXValues_succeeds [of ax_args] by blast
  qed
  have res: "parseAXValues ax_args = Inr (singletons, d) \<longrightarrow>
            set singletons =
              {v. \<exists>k. (k, v) \<in> set ax_args \<and> startswith k ''type.'' \<and>
                      dict_get ax_args (''count.'' @ drop 5 k) = None} \<and>
            fst ` set d = {v. \<exists>k. (k, v) \<in> set ax_args \<and> startswith k ''type.''}"
    using parseAXValues_result [of ax_args singletons d] by blast
  show ?thesis
    using cases iff res by (elim conjE) (intro conjI; assumption)
qed

theorem parseAXValues_per_alias_witness:
  "(\<exists>s d. parseAXValues [(''type.a'', ''u''), (''value.a'', ''''), (''type.b'', ''w''),
                 (''count.b'', ''2''), (''value.b.1'', ''x''), (''value.b.2'', ''y'')] = Inr (s, d) \<and>
          set s = {''u''} \<and> fst ` set d = {''u'', ''w''} \<and>
          dict_get d ''u'' = Some [] \<and> dict_get d ''w'' = Some [''x'', ''y'']) \<and>
   isl (parseAXValues [(''type.a'', ''u'')])"
proof -
  let ?args = "[(''type.a'', ''u''), (''value.a'', ''''), (''type.b'', ''w''),
                (''count.b'', ''2''), (''value.b.1'', ''x''), (''value.b.2'', ''y'')]"
  have ta: "dict_get ?args (''type.'' @ ''a'') = Some ''u''" by (simp add: dict_get_def)
  have tb: "dict_get ?args (''type.'' @ ''b'') = Some ''w''" by (simp add: dict_get_def)
  have ca: "dict_get ?args (''count.'' @ ''a'') = None" by (simp add: dict_get_def)
  have va: "dict_get ?args (''value.'' @ ''a'') = Some ''''" by (simp add: dict_get_def)
  have cb: "dict_get ?args (''count.'' @ ''b'') = Some ''2''" by (simp add: dict_get_def)
  have two: "py_int ''2'' = Some 2" by code_simp
  have range: "[1 .. 2 :: int] = [1, 2]" by (simp add: upto.simps)
  have k1: "value_key ''b'' 1 = ''value.b.1''" and k2: "value_key ''b'' 2 = ''value.b.2''"
    by code_simp+
  have vb: "map (\<lambda>i. dict_get ?args (value_key ''b'' i)) [1 .. 2] = [Some ''x'', Some ''y'']"
    unfolding range by (simp add: k1 k2 dict_get_def)
  have types: "(k, v) = (''type.a'', ''u'') \<or> (k, v) = (''type.b'', ''w'')"
    if "(k, v) \<in> set ?args \<and> startswith k ''type.''" for k v
    using that by (elim conjE, simp, elim disjE conjE) (simp_all add: startswith_def)
  have sa: "startswith ''type.a'' ''type.''" and sb: "startswith ''type.b'' ''type.''"
    by (simp_all add: startswith_def)
  have one_to_one: "\<forall>k v k' v'. (k, v) \<in> set ?args \<and> (k', v') \<in> set ?args \<and>
      startswith k ''type.'' \<and> startswith k' ''type.'' \<longrightarrow> (v = v') = (drop 5 k = drop 5 k')"
  proof (intro allI impI)
    fix k v k' v'
    assume h: "(k, v) \<in> set ?args \<and> (k', v') \<in> set ?args \<and>
      startswith k ''type.'' \<and> startswith k' ''type.''"
    then have "(k, v) \<in> set ?args \<and> startswith k ''type.''"
      and "(k', v') \<in> set ?args \<and> startswith k' ''type.''" by blast+
    from types [OF this(1)] types [OF this(2)]
    show "(v = v') = (drop 5 k = drop 5 k')" by auto
  qed
  have complete: "\<forall>k v. (k, v) \<in> set ?args \<and> startswith k ''type.'' \<longrightarrow>
      (case dict_get ?args (''count.'' @ drop 5 k) of
         None \<Rightarrow> dict_get ?args (''value.'' @ drop 5 k) \<noteq> None
       | Some cs \<Rightarrow> (\<exists>n. py_int cs = Some n \<and>
           (\<forall>i \<in> {1 .. n}. dict_get ?args (value_key (drop 5 k) i) \<noteq> None)))"
  proof (intro allI impI)
    fix k v
    assume "(k, v) \<in> set ?args \<and> startswith k ''type.''"
    from types [OF this] have "k = ''type.a'' \<or> k = ''type.b''" by blast
    then show "case dict_get ?args (''count.'' @ drop 5 k) of
         None \<Rightarrow> dict_get ?args (''value.'' @ drop 5 k) \<noteq> None
       | Some cs \<Rightarrow> (\<exists>n. py_int cs = Some n \<and>
           (\<forall>i \<in> {1 .. n}. dict_get ?args (value_key (drop 5 k) i) \<noteq> None))"
    proof
      assume "k = ''type.a''"
      then show ?thesis by (simp add: dict_get_def)
    next
      assume k: "k = ''type.b''"
      have "\<forall>i \<in> {1 .. 2 :: int}. dict_get ?args (value_key ''b'' i) \<noteq> None"
      proof
        fix i :: int assume "i \<in> {1 .. 2}"
        then have "i = 1 \<or> i = 2" by auto
        then show "dict_get ?args (value_key ''b'' i) \<noteq> None"
          by (auto simp: k1 k2 dict_get_def)
      qed
      with two k show ?thesis by (simp add: dict_get_def)
    qed
  qed
  note iff = parseAXValues_per_alias [OF ta, of "[]" "[]",
      THEN conjunct2, THEN conjunct2, THEN conjunct2, THEN conjunct2, THEN conjunct1]
  have "\<exists>s d. parseAXValues ?args = Inr (s, d)"
    by (rule iff [THEN iffD2, OF conjI [OF one_to_one complete]])
  then obtain s d where r: "parseAXValues ?args = Inr (s, d)" by blast
  note pa = parseAXValues_per_alias [OF ta, of s d, THEN conjunct1, THEN mp, OF r]
  note pb = parseAXValues_per_alias [OF tb, of s d, THEN conjunct1, THEN mp, OF r]
  note res = parseAXValues_per_alias [OF ta, of s d,
      THEN conjunct2, THEN conjunct2, THEN conjunct2, THEN conjunct2, THEN conjunct2,
      THEN mp, OF r]
  from pa have ua: "dict_get d ''u'' = Some []"
    unfolding ca va by simp
  from pb obtain vs where w: "dict_get d ''w'' = Some vs"
    and m: "map Some vs = map (\<lambda>i. dict_get ?args (value_key ''b'' i)) [1 .. 2]"
    unfolding cb using two by auto
  from m vb have "map Some vs = [Some ''x'', Some ''y'']" by simp
  then have "vs = [''x'', ''y'']" by auto
  with w have wb: "dict_get d ''w'' = Some [''x'', ''y'']" by simp
  have "{v. \<exists>k. (k, v) \<in> set ?args \<and> startswith k ''type.'' \<and>
              dict_get ?args (''count.'' @ drop 5 k) = None} = {''u''}"
  proof (intro equalityI subsetI)
    fix x
    assume "x \<in> {v. \<exists>k. (k, v) \<in> set ?args \<and> startswith k ''type.'' \<and>
              dict_get ?args (''count.'' @ drop 5 k) = None}"
    then obtain k where m: "(k, x) \<in> set ?args \<and> startswith k ''type.''"
      and c: "dict_get ?args (''count.'' @ drop 5 k) = None" by blast
    from types [OF m] c show "x \<in> {''u''}" by (auto simp: dict_get_def)
  next
    fix x assume "x \<in> {''u''}"
    then have x: "x = ''u''" by simp
    have "(''type.a'', ''u'') \<in> set ?args \<and> startswith ''type.a'' ''type.'' \<and>
          dict_get ?args (''count.'' @ drop 5 ''type.a'') = None"
      using sa by (simp add: dict_get_def)
    then show "x \<in> {v. \<exists>k. (k, v) \<in> set ?args \<and> startswith k ''type.'' \<and>
              dict_get ?args (''count.'' @ drop 5 k) = None}"
      unfolding x by blast
  qed
  with res have ss: "set s = {''u''}" by simp
  have "{v. \<exists>k. (k, v) \<in> set ?args \<and> startswith k ''type.''} = {''u'', ''w''}"
  proof (intro equalityI subsetI)
    fix x
    assume "x \<in> {v. \<exists>k. (k, v) \<in> set ?args \<and> startswith k ''type.''}"
    then obtain k where m: "(k, x) \<in> set ?args \<and> startswith k ''type.''" by blast
    from types [OF m] show "x \<in> {''u'', ''w''}" by auto
  next
    fix x assume "x \<in> {''u'', ''w''}"
    then have "x = ''u'' \<or> x = ''w''" by simp
    moreover have "(''type.a'', ''u'') \<in> set ?args \<and> startswith ''type.a'' ''type.''"
      using sa by simp
    moreover have "(''type.b'', ''w'') \<in> set ?args \<and> startswith ''type.b'' ''type.''"
      using sb by simp
    ultimately show "x \<in> {v. \<exists>k. (k, v) \<in> set ?args \<and> startswith k ''type.''}"
      by blast
  qed
  with res have kd: "fst ` set d = {''u'', ''w''}" by simp
  have tf: "dict_get [(''type.a'', ''u'')] (''type.'' @ ''a'') = Some ''u''"
    by (simp add: dict_get_def)
  have nf: "dict_get [(''type.a'', ''u'')] (''count.'' @ ''a'') = None \<and>
            dict_get [(''type.a'', ''u'')] (''value.'' @ ''a'') = None"
    by (simp add: dict_get_def)
  have fl: "isl (parseAXValues [(''type.a'', ''u'')])"
    by (rule parseAXValues_per_alias [OF tf, of "[]" "[]",
          THEN conjunct2, THEN conjunct1, THEN mp, OF nf])
  from r ss kd ua wb have "\<exists>s d. parseAXValues ?args = Inr (s, d) \<and>
          set s = {''u''} \<and> fst ` set d = {''u'', ''w''} \<and>
          dict_get d ''u'' = Some [] \<and> dict_get d ''w'' = Some [''x'', ''y'']"
    by blast
  from this fl show ?thesis by (rule conjI)
qed

text \<open>
  C9. \<open>fromSuccessResponse\<close> builds a response and parses the arguments into it, but
  has no \<open>return\<close>: whatever the SuccessResponse and the \<open>signed\<close> flag, its value is
  never the response; when the parse succeeds it is \<open>None\<close>, and otherwise the parse's
  error is raised.
\<close>

theorem fromSuccessResponse_returns_None:
  "fromSuccessResponse request_iter success_response signed \<noteq> Inr (Some r) \<and>
   (FetchResponse_parseExtensionArgs \<lparr>request = None, data = [], update_url = None\<rparr>
      (if signed then getSignedNS success_response else Some (getArgs success_response)) = Inr p
    \<longrightarrow> fromSuccessResponse request_iter success_response signed = Inr None)"
  by (simp add: fromSuccessResponse_def FetchResponse_init_def Let_def split: sum.splits)

theorem fromSuccessResponse_returns_None_witness:
  "fromSuccessResponse (\<lambda>r. Inl TypeError)
     \<lparr>getSignedNS = Some [(''mode'', ''fetch_response''), (''type.a'', ''u''), (''value.a'', ''v'')],
      getArgs = []\<rparr> True = Inr None"
proof -
  let ?args = "[(''mode'', ''fetch_response''), (''type.a'', ''u''), (''value.a'', ''v'')]"
  let ?sr = "\<lparr>getSignedNS = Some ?args, getArgs = []\<rparr>"
  let ?r0 = "\<lparr>request = None, data = [], update_url = None\<rparr> :: FetchResponse"
  have "FetchResponse_parseExtensionArgs ?r0 (Some ?args)
          = Inr \<lparr>request = None, data = [(''u'', [''v''])], update_url = None\<rparr>"
    by code_simp
  then have "FetchResponse_parseExtensionArgs ?r0
          (if True then getSignedNS ?sr else Some (getArgs ?sr))
          = Inr \<lparr>request = None, data = [(''u'', [''v''])], update_url = None\<rparr>"
    by simp
  with fromSuccessResponse_returns_None [of "\<lambda>r. Inl TypeError" ?sr True ?r0
         "\<lparr>request = None, data = [(''u'', [''v''])], update_url = None\<rparr>"]
  show ?thesis by blast
qed

subsection \<open>Parsing a request\<close>

lemma add_Inr:
  "add s attr = Inr s' \<Longrightarrow>
     requested_attributes s' = dict_set (requested_attributes s) (type_uri attr) attr"
  by (auto simp: add_def split: if_splits)

lemma parse_types_Inr:
  "parse_types a0 args nm0 s0 = Inr (nm, s1) \<Longrightarrow>
     fst ` set (requested_attributes s0) = fst ` set nm0 \<Longrightarrow>
     set nm = set nm0 \<union> {(v, drop 5 k) | k v. (k, v) \<in> set args \<and> startswith k ''type.''} \<and>
     fst ` set (requested_attributes s1) = fst ` set nm \<and>
     (\<forall>t attr. dict_get (requested_attributes s1) t = Some attr \<longrightarrow>
        dict_get (requested_attributes s0) t = Some attr \<or> \<not> required attr)"
proof (induction args arbitrary: nm0 s0)
  case Nil
  then show ?case by simp
next
  case (Cons p args)
  obtain k v where p: "p = (k, v)" by (cases p)
  show ?case
  proof (cases "startswith k ''type.''")
    case False
    with Cons.prems p have "parse_types a0 args nm0 s0 = Inr (nm, s1)" by simp
    from Cons.IH [OF this Cons.prems(2)] False p show ?thesis by auto
  next
    case True
    with Cons.prems(1) p obtain x nm1 c s' where
      a: "addAlias nm0 v (drop 5 k) = Inr (x, nm1)" and
      s': "add s0 (AttrInfo_init v c False (Some x)) = Inr s'" and
      r: "parse_types a0 args nm1 s' = Inr (nm, s1)"
      by (auto split: sum.splits)
    from addAlias_result [OF a] have nm1: "set nm1 = insert (v, drop 5 k) (set nm0)" by simp
    from add_Inr [OF s'] have attrs':
      "requested_attributes s' =
         dict_set (requested_attributes s0) v (AttrInfo_init v c False (Some x))"
      by (simp add: AttrInfo_init_def)
    have keys: "fst ` set (requested_attributes s') = fst ` set nm1"
      using Cons.prems(2) by (simp add: attrs' dict_set_keys nm1)
    note ih = Cons.IH [OF r keys]
    have "set nm = set nm0 \<union>
            {(v', drop 5 k') | k' v'. (k', v') \<in> set (p # args) \<and> startswith k' ''type.''}"
      using ih nm1 p True by auto
    moreover have "fst ` set (requested_attributes s1) = fst ` set nm"
      using ih by simp
    moreover have "\<forall>t attr. dict_get (requested_attributes s1) t = Some attr \<longrightarrow>
        dict_get (requested_attributes s0) t = Some attr \<or> \<not> required attr"
    proof (intro allI impI)
      fix t attr
      assume "dict_get (requested_attributes s1) t = Some attr"
      with ih have "dict_get (requested_attributes s') t = Some attr \<or> \<not> required attr"
        by blast
      then show "dict_get (requested_attributes s0) t = Some attr \<or> \<not> required attr"
        by (auto simp: attrs' dict_get_set AttrInfo_init_def split: if_splits)
    qed
    ultimately show ?thesis by blast
  qed
qed

lemma resolve_aliases_Inr: "resolve_aliases nm as = Inr us \<Longrightarrow> set us \<subseteq> fst ` set nm"
proof (induction as arbitrary: us)
  case Nil
  then show ?case by simp
next
  case (Cons a as)
  from Cons.prems obtain u us' where
    u: "getNamespaceURI nm a = Some u" and r: "resolve_aliases nm as = Inr us'" and
    us: "us = u # us'"
    by (auto split: option.splits sum.splits)
  from getNamespaceURI_Some [OF u] have "u \<in> fst ` set nm" by force
  with Cons.IH [OF r] us show ?case by simp
qed

lemma toTypeURIs_Inr: "toTypeURIs nm s = Inr us \<Longrightarrow> set us \<subseteq> fst ` set nm"
  by (auto simp: toTypeURIs_def split: option.splits if_splits dest: resolve_aliases_Inr)

lemma mark_required_Inr:
  "set ts \<subseteq> fst ` set attrs \<Longrightarrow>
     \<exists>attrs'. mark_required attrs ts = Inr attrs' \<and>
       (\<forall>t. dict_get attrs' t =
              map_option (\<lambda>a. if t \<in> set ts then a\<lparr>required := True\<rparr> else a) (dict_get attrs t))"
proof (induction ts arbitrary: attrs)
  case Nil
  then show ?case by (simp add: option.map_ident)
next
  case (Cons t ts)
  from Cons.prems obtain attr where g: "dict_get attrs t = Some attr"
    using dict_get_None [of attrs t] by auto
  let ?attrs1 = "dict_set attrs t (attr\<lparr>required := True\<rparr>)"
  from Cons.prems have "set ts \<subseteq> fst ` set ?attrs1" by (auto simp: dict_set_keys)
  from Cons.IH [OF this] obtain attrs' where
    m: "mark_required ?attrs1 ts = Inr attrs'" and
    l: "\<forall>x. dict_get attrs' x =
          map_option (\<lambda>a. if x \<in> set ts then a\<lparr>required := True\<rparr> else a) (dict_get ?attrs1 x)"
    by blast
  have "\<forall>x. dict_get attrs' x =
          map_option (\<lambda>a. if x \<in> set (t # ts) then a\<lparr>required := True\<rparr> else a) (dict_get attrs x)"
    using l g by (auto simp: dict_get_set)
  with m g show ?case by simp
qed

text \<open>
  C6 (as amended). Take arguments of mode \<open>fetch_request\<close> whose \<open>type.<alias>\<close> keys
  register without an alias conflict and with counts that are empty or integers, and
  whose \<open>required\<close> and \<open>if_available\<close> lists name declared aliases only. Parsing them
  into a new request fails with the ValueError of the completeness check exactly when a
  declared type URI is in neither list; otherwise it succeeds, the request holds the
  declared type URIs, and those resolved from the \<open>required\<close> list, and no others, are
  marked required.
\<close>

theorem parse_request_requiredness:
  assumes mode: "dict_get args ''mode'' = Some ''fetch_request''"
    and pt: "parse_types args args [] (FetchRequest_init u0) = Inr (aliases, self1)"
    and rq: "toTypeURIs aliases (dict_get args ''required'') = Inr required_l"
    and av: "toTypeURIs aliases (dict_get args ''if_available'') = Inr if_available"
  shows "set (iterNamespaceURIs aliases) = {v. \<exists>k. (k, v) \<in> set args \<and> startswith k ''type.''} \<and>
         (FetchRequest_parseExtensionArgs (FetchRequest_init u0) (Some args) = Inl ValueError
            \<longleftrightarrow> (\<exists>t \<in> set (iterNamespaceURIs aliases). t \<notin> set (required_l @ if_available))) \<and>
         ((\<forall>t \<in> set (iterNamespaceURIs aliases). t \<in> set (required_l @ if_available)) \<longrightarrow>
            (\<exists>self'. FetchRequest_parseExtensionArgs (FetchRequest_init u0) (Some args) = Inr self' \<and>
                fst ` set (requested_attributes self') = set (iterNamespaceURIs aliases) \<and>
                (\<forall>t attr. dict_get (requested_attributes self') t = Some attr \<longrightarrow>
                   (required attr \<longleftrightarrow> t \<in> set required_l))))"
proof -
  let ?parse = "FetchRequest_parseExtensionArgs (FetchRequest_init u0) (Some args)"
  let ?missing = "\<exists>t \<in> set (iterNamespaceURIs aliases). t \<notin> set (required_l @ if_available)"
  have cm: "checkMode ''fetch_request'' (Some args) = Inr args"
    using mode by (simp add: checkMode_def)
  have "fst ` set (requested_attributes (FetchRequest_init u0)) = fst ` set ([] :: NamespaceMap)"
    by (simp add: FetchRequest_init_def)
  from parse_types_Inr [OF pt this]
  have al: "set aliases = {(v, drop 5 k) | k v. (k, v) \<in> set args \<and> startswith k ''type.''}"
    and keys: "fst ` set (requested_attributes self1) = fst ` set aliases"
    and fresh: "\<forall>t attr. dict_get (requested_attributes self1) t = Some attr \<longrightarrow> \<not> required attr"
    by (auto simp: FetchRequest_init_def dict_get_def)
  from al have declared:
    "set (iterNamespaceURIs aliases) = {v. \<exists>k. (k, v) \<in> set args \<and> startswith k ''type.''}"
    by (force simp: iterNamespaceURIs_def)
  from toTypeURIs_Inr [OF rq] keys
  have "set required_l \<subseteq> fst ` set (requested_attributes self1)" by simp
  from mark_required_Inr [OF this] obtain attrs where
    m: "mark_required (requested_attributes self1) required_l = Inr attrs" and
    l: "\<forall>t. dict_get attrs t =
          map_option (\<lambda>a. if t \<in> set required_l then a\<lparr>required := True\<rparr> else a)
            (dict_get (requested_attributes self1) t)"
    by blast
  let ?self' = "self1\<lparr>requested_attributes := attrs,
                       request_update_url := dict_get args ''update_url''\<rparr>"
  have p: "?parse = (if ?missing then Inl ValueError else Inr ?self')"
    using cm pt rq av m by (simp add: FetchRequest_parseExtensionArgs_def list_ex_iff)
  have k': "fst ` set attrs = set (iterNamespaceURIs aliases)"
  proof -
    have "\<And>t. dict_get attrs t = None \<longleftrightarrow> dict_get (requested_attributes self1) t = None"
      using l by simp
    then have "fst ` set attrs = fst ` set (requested_attributes self1)"
      unfolding dict_get_None by blast
    with keys show ?thesis by (simp add: iterNamespaceURIs_def)
  qed
  have flags: "\<forall>t attr. dict_get attrs t = Some attr \<longrightarrow> (required attr \<longleftrightarrow> t \<in> set required_l)"
  proof (intro allI impI)
    fix t attr
    assume "dict_get attrs t = Some attr"
    with l obtain a0 where a0: "dict_get (requested_attributes self1) t = Some a0"
      and attr: "attr = (if t \<in> set required_l then a0\<lparr>required := True\<rparr> else a0)"
      by auto
    from fresh a0 have "\<not> required a0" by blast
    with attr show "required attr \<longleftrightarrow> t \<in> set required_l" by simp
  qed
  from p have "?parse = Inl ValueError \<longleftrightarrow> ?missing" by simp
  moreover have "(\<forall>t \<in> set (iterNamespaceURIs aliases). t \<in> set (required_l @ if_available)) \<longrightarrow>
            (\<exists>self'. ?parse = Inr self' \<and>
                fst ` set (requested_attributes self') = set (iterNamespaceURIs aliases) \<and>
                (\<forall>t attr. dict_get (requested_attributes self') t = Some attr \<longrightarrow>
                   (required attr \<longleftrightarrow> t \<in> set required_l)))"
  proof
    assume "\<forall>t \<in> set (iterNamespaceURIs aliases). t \<in> set (required_l @ if_available)"
    with p have "?parse = Inr ?self'" by auto
    with k' flags show "\<exists>self'. ?parse = Inr self' \<and>
                fst ` set (requested_attributes self') = set (iterNamespaceURIs aliases) \<and>
                (\<forall>t attr. dict_get (requested_attributes self') t = Some attr \<longrightarrow>
                   (required attr \<longleftrightarrow> t \<in> set required_l))"
      by simp
  qed
  ultimately show ?thesis using declared by blast
qed

theorem parse_request_requiredness_witness:
  "FetchRequest_parseExtensionArgs (FetchRequest_init None)
     (Some [(''mode'', ''fetch_request''), (''type.a'', ''u''), (''type.b'', ''w''),
            (''required'', ''a'')]) = Inl ValueError \<and>
   (\<exists>self'. FetchRequest_parseExtensionArgs (FetchRequest_init None)
      (Some [(''mode'', ''fetch_request''), (''type.a'', ''u''), (''type.b'', ''w''),
             (''required'', ''a''), (''if_available'', ''b'')]) = Inr self' \<and>
      fst ` set (requested_attributes self') = set (iterNamespaceURIs [(''u'', ''a''), (''w'', ''b'')]) \<and>
      (\<forall>t attr. dict_get (requested_attributes self') t = Some attr \<longrightarrow>
         (required attr \<longleftrightarrow> t \<in> set [''u''])))"
proof -
  let ?a1 = "[(''mode'', ''fetch_request''), (''type.a'', ''u''), (''type.b'', ''w''),
              (''required'', ''a'')]"
  let ?a2 = "[(''mode'', ''fetch_request''), (''type.a'', ''u''), (''type.b'', ''w''),
              (''required'', ''a''), (''if_available'', ''b'')]"
  let ?nm = "[(''u'', ''a''), (''w'', ''b'')]"
  let ?s1 = "\<lparr>requested_attributes =
               [(''u'', AttrInfo_init ''u'' None False (Some ''a'')),
                (''w'', AttrInfo_init ''w'' None False (Some ''b''))],
             request_update_url = None\<rparr>"
  have m1: "dict_get ?a1 ''mode'' = Some ''fetch_request''" by (simp add: dict_get_def)
  have p1: "parse_types ?a1 ?a1 [] (FetchRequest_init None) = Inr (?nm, ?s1)" by code_simp
  have r1: "toTypeURIs ?nm (dict_get ?a1 ''required'') = Inr [''u'']" by code_simp
  have v1: "toTypeURIs ?nm (dict_get ?a1 ''if_available'') = Inr []" by code_simp
  have m2: "dict_get ?a2 ''mode'' = Some ''fetch_request''" by (simp add: dict_get_def)
  have p2: "parse_types ?a2 ?a2 [] (FetchRequest_init None) = Inr (?nm, ?s1)" by code_simp
  have r2: "toTypeURIs ?nm (dict_get ?a2 ''required'') = Inr [''u'']" by code_simp
  have v2: "toTypeURIs ?nm (dict_get ?a2 ''if_available'') = Inr [''w'']" by code_simp
  have x1: "\<exists>t \<in> set (iterNamespaceURIs ?nm). t \<notin> set ([''u''] @ [])"
    by (simp add: iterNamespaceURIs_def)
  have x2: "\<forall>t \<in> set (iterNamespaceURIs ?nm). t \<in> set ([''u''] @ [''w''])"
    by (simp add: iterNamespaceURIs_def)
  from parse_request_requiredness [OF m1 p1 r1 v1] x1
  have "FetchRequest_parseExtensionArgs (FetchRequest_init None) (Some ?a1) = Inl ValueError"
    by blast
  moreover from parse_request_requiredness [OF m2 p2 r2 v2] x2
  have "\<exists>self'. FetchRequest_parseExtensionArgs (FetchRequest_init None) (Some ?a2) = Inr self' \<and>
      fst ` set (requested_attributes self') = set (iterNamespaceURIs ?nm) \<and>
      (\<forall>t attr. dict_get (requested_attributes self') t = Some attr \<longrightarrow>
         (required attr \<longleftrightarrow> t \<in> set [''u'']))"
    by blast
  ultimately show ?thesis by blast
qed

text \<open>
  C6 as stated fails: with the only declared type URI in the \<open>required\<close> list, the
  parse still fails when its count is no integer (a ValueError of \<open>int\<close>); with it in
  the \<open>if_available\<close> list, the parse fails when the \<open>required\<close> list names an
  undeclared alias (the KeyError of \<open>toTypeURIs\<close>); and a type URI declared under two
  aliases, both listed, is a KeyError of the registration.
\<close>

theorem parse_request_fails_on_other_grounds:
  "register_types [(''mode'', ''fetch_request''), (''type.a'', ''u''), (''count.a'', ''x''),
                   (''required'', ''a'')] [] = Inr [(''u'', ''a'')] \<and>
   toTypeURIs [(''u'', ''a'')] (Some ''a'') = Inr [''u''] \<and>
   FetchRequest_parseExtensionArgs (FetchRequest_init None)
     (Some [(''mode'', ''fetch_request''), (''type.a'', ''u''), (''count.a'', ''x''),
            (''required'', ''a'')]) = Inl ValueError \<and>
   FetchRequest_parseExtensionArgs (FetchRequest_init None)
     (Some [(''mode'', ''fetch_request''), (''type.a'', ''u''), (''if_available'', ''a''),
            (''required'', ''b'')]) = Inl KeyError \<and>
   FetchRequest_parseExtensionArgs (FetchRequest_init None)
     (Some [(''mode'', ''fetch_request''), (''type.a'', ''u''), (''type.b'', ''u''),
            (''required'', ''a,b'')]) = Inl KeyError"
  by code_simp

subsection \<open>The serializers\<close>

text \<open>
  C1 (the code departs from it). A response bound to a request for up to three
  values, with an empty list for its type URI, and then given two values builds the full argument mapping, but \<open>getExtensionArgs\<close> ends without
  returning it: the caller gets \<open>None\<close>, and parsing \<open>None\<close> is an AttributeError.
\<close>

theorem response_serializer_returns_nothing:
  "add (FetchRequest_init None) (AttrInfo_init ''u'' (Some 3) False None)
     = Inr \<lparr>requested_attributes = [(''u'', AttrInfo_init ''u'' (Some 3) False None)],
            request_update_url = None\<rparr> \<and>
   setValues
       \<lparr>request = Some \<lparr>requested_attributes = [(''u'', AttrInfo_init ''u'' (Some 3) False None)],
                        request_update_url = None\<rparr>,
        data = [(''u'', [])], update_url = None\<rparr> ''u'' [''a'', ''b'']
     = Inr \<lparr>request = Some \<lparr>requested_attributes = [(''u'', AttrInfo_init ''u'' (Some 3) False None)],
                              request_update_url = None\<rparr>,
            data = [(''u'', [''a'', ''b''])], update_url = None\<rparr> \<and>
   FetchResponse_build_args
       \<lparr>request = Some \<lparr>requested_attributes = [(''u'', AttrInfo_init ''u'' (Some 3) False None)],
                        request_update_url = None\<rparr>,
        data = [(''u'', [''a'', ''b''])], update_url = None\<rparr>
     = Inr [(''mode'', ''fetch_response''), (''value.ext0.1'', ''a''), (''value.ext0.2'', ''b''),
            (''count.ext0'', ''2''), (''type.ext0'', ''u'')] \<and>
   FetchResponse_getExtensionArgs
       \<lparr>request = Some \<lparr>requested_attributes = [(''u'', AttrInfo_init ''u'' (Some 3) False None)],
                        request_update_url = None\<rparr>,
        data = [(''u'', [''a'', ''b''])], update_url = None\<rparr>
     = Inr None \<and>
   FetchResponse_parseExtensionArgs \<lparr>request = None, data = [], update_url = None\<rparr> None
     = Inl AttributeError"
  by code_simp

text \<open>
  C2 (the code departs from it). \<open>FetchRequest.getExtensionArgs\<close> never stores
  \<open>update_url\<close>, though the parser reads it and the response serializer stores it: a
  request with an update URL serializes without it and parses back with none.
\<close>

theorem request_serializer_drops_update_url:
  "add (FetchRequest_init (Some ''http://x/'')) (AttrInfo_init ''u'' None True None)
     = Inr \<lparr>requested_attributes = [(''u'', AttrInfo_init ''u'' None True None)],
            request_update_url = Some ''http://x/''\<rparr> \<and>
   FetchRequest_getExtensionArgs
       \<lparr>requested_attributes = [(''u'', AttrInfo_init ''u'' None True None)],
        request_update_url = Some ''http://x/''\<rparr>
     = Inr [(''mode'', ''fetch_request''), (''type.ext0'', ''u''), (''required'', ''ext0'')] \<and>
   FetchRequest_parseExtensionArgs (FetchRequest_init None)
       (Some [(''mode'', ''fetch_request''), (''type.ext0'', ''u''), (''required'', ''ext0'')])
     = Inr \<lparr>requested_attributes = [(''u'', AttrInfo_init ''u'' None True (Some ''ext0''))],
            request_update_url = None\<rparr>"
  by code_simp

text \<open>
  C3 (the code departs from it). For a descriptor with an unset count, the limit check
  \<open>len(values) > attr_request.count\<close> compares with \<open>None\<close> and raises before the
  singleton branch is reached, with no value stored and with one. The parser's side
  holds: an empty \<open>value.<alias>\<close> without a count parses to no values.
\<close>

theorem unset_count_serialization_fails:
  "FetchResponse_getExtensionArgs
       \<lparr>request = Some \<lparr>requested_attributes = [(''u'', AttrInfo_init ''u'' None False None)],
                        request_update_url = None\<rparr>,
        data = [(''u'', [])], update_url = None\<rparr> = Inl ValueError \<and>
   FetchResponse_build_args
       \<lparr>request = Some \<lparr>requested_attributes = [(''u'', AttrInfo_init ''u'' None False None)],
                        request_update_url = None\<rparr>,
        data = [(''u'', [])], update_url = None\<rparr> = Inl ValueError \<and>
   FetchResponse_build_args
       \<lparr>request = Some \<lparr>requested_attributes = [(''u'', AttrInfo_init ''u'' None False None)],
                        request_update_url = None\<rparr>,
        data = [(''u'', [''a''])], update_url = None\<rparr> = Inl ValueError \<and>
   parseAXValues [(''mode'', ''fetch_response''), (''type.a'', ''u''), (''value.a'', '''')]
     = Inr ([''u''], [(''u'', [])])"
  by code_simp

subsection \<open>Allocated aliases and the data of a bound response\<close>

lemma digits_value_snoc:
  "digits_value acc (xs @ [c]) = 10 * digits_value acc xs + (of_char c - 48)"
  by (induction xs arbitrary: acc) simp_all

lemma of_char_digit_char: "d < 10 \<Longrightarrow> of_char (digit_char d) - 48 = d"
  by (simp add: digit_char_def)

lemma digits_value_str_nat: "digits_value 0 (str_nat n) = n"
proof (induction n rule: str_nat.induct)
  case (1 n)
  show ?case
  proof (cases "n < 10")
    case True
    then show ?thesis by (simp add: str_nat.simps [of n] of_char_digit_char)
  next
    case False
    with 1 have "digits_value 0 (str_nat (n div 10)) = n div 10" by simp
    with False show ?thesis
      by (simp add: str_nat.simps [of n] digits_value_snoc of_char_digit_char)
  qed
qed

lemma inj_str_nat: "inj str_nat"
  by (rule inj_on_inverseI [where g = "digits_value 0"]) (rule digits_value_str_nat)

lemma ext_alias_unused:
  "\<exists>i \<in> set [0 ..< Suc (length nm)]. getNamespaceURI nm (''ext'' @ str_nat i) = None"
proof (rule ccontr)
  assume "\<not> ?thesis"
  then have all: "\<forall>i \<in> {0 ..< Suc (length nm)}. ''ext'' @ str_nat i \<in> snd ` set nm"
    by (simp add: getNamespaceURI_None del: upt_Suc)
  have sub: "(\<lambda>i. ''ext'' @ str_nat i) ` {0 ..< Suc (length nm)} \<subseteq> snd ` set nm"
  proof
    fix x assume "x \<in> (\<lambda>i. ''ext'' @ str_nat i) ` {0 ..< Suc (length nm)}"
    then obtain i where "i \<in> {0 ..< Suc (length nm)}" and "x = ''ext'' @ str_nat i" by blast
    with all show "x \<in> snd ` set nm" by blast
  qed
  have "inj_on (\<lambda>i. ''ext'' @ str_nat i) {0 ..< Suc (length nm)}"
    using inj_str_nat by (auto simp: inj_on_def dest: injD)
  then have "card ((\<lambda>i. ''ext'' @ str_nat i) ` {0 ..< Suc (length nm)}) = Suc (length nm)"
    by (simp add: card_image)
  moreover have "card (snd ` set nm) \<le> length nm"
    using card_image_le [of "set nm" snd] card_length [of nm] by simp
  moreover have "card ((\<lambda>i. ''ext'' @ str_nat i) ` {0 ..< Suc (length nm)}) \<le> card (snd ` set nm)"
    by (rule card_mono [OF _ sub]) simp
  ultimately show False by simp
qed

lemma find_Some_holds: "find P xs = Some x \<Longrightarrow> P x"
  by (induction xs) (auto split: if_splits)

lemma NamespaceMap_add_fresh:
  assumes "getAlias nm u = None" and "NamespaceMap_add nm u = (a, nm')"
  shows "getNamespaceURI nm a = None \<and> nm' = nm @ [(u, a)]"
proof -
  let ?P = "\<lambda>i. getNamespaceURI nm (''ext'' @ str_nat i) = None"
  from ext_alias_unused [of nm] have "find ?P [0 ..< Suc (length nm)] \<noteq> None"
    unfolding find_None_iff by blast
  then obtain i where f: "find ?P [0 ..< Suc (length nm)] = Some i" by blast
  from find_Some_holds [OF f] have "getNamespaceURI nm (''ext'' @ str_nat i) = None" .
  with f assms show ?thesis
    by (auto simp: NamespaceMap_add_def Let_def simp del: upt_Suc)
qed

lemma foldl_dict_set:
  "dict_get (foldl (\<lambda>d t. dict_set d t v) d0 ts) k = (if k \<in> set ts then Some v else dict_get d0 k)"
  by (induction ts arbitrary: d0) (auto simp: dict_get_set)

lemma FetchResponse_init_not_iterable:
  "FetchResponse_init (\<lambda>r. Inl TypeError) (Some req) = Inl TypeError"
  by (simp add: FetchResponse_init_def)

lemma FetchResponse_init_data:
  assumes "FetchResponse_init (\<lambda>r. Inr (map fst (requested_attributes r))) (Some req) = Inr self"
  shows "request self = Some req \<and>
         dict_get (data self) t =
           (if dict_get (requested_attributes req) t = None then None else Some [])"
proof -
  from assms have self: "self = \<lparr>request = Some req,
      data = foldl (\<lambda>d t. dict_set d t []) [] (map fst (requested_attributes req)),
      update_url = request_update_url req\<rparr>"
    by (simp add: FetchResponse_init_def)
  have "dict_get (data self) t =
          (if t \<in> fst ` set (requested_attributes req) then Some [] else dict_get [] t)"
    unfolding self by (simp add: foldl_dict_set)
  then show ?thesis
    unfolding self by (simp add: dict_get_None)
qed

end
